theory Spec2Isabelle
  imports Complex_Main "HOL-Library.AList"
begin

section \<open>PostgreSQL values\<close>

text \<open>
  The schema \<^verbatim>\<open>infra/supabase.sql\<close> is embedded over three kinds of SQL value.
  A nullable column or variable of type \<^verbatim>\<open>INTEGER\<close> is an \<open>int option\<close> (\<open>None\<close> is
  \<^verbatim>\<open>NULL\<close>) whose value lies in the 32-bit range; a statement that would store a value
  outside that range raises an error. A \<^verbatim>\<open>FLOAT\<close> is represented by the rational number
  it stands for: the rounding of double-precision arithmetic is outside the model. A
  statement either raises (\<open>Inl\<close>) or returns (\<open>Inr\<close>).
\<close>

datatype sql_error =
    DivisionByZero
  | NumericValueOutOfRange
  | InvalidTextRepresentation
  | NotNullViolation
  | CheckViolation
  | UniqueViolation
  | ForeignKeyViolation
  | NoDataFound

definition int4_min :: int where
  "int4_min = - 2147483648"

definition int4_max :: int where
  "int4_max = 2147483647"

definition in_int4 :: "int \<Rightarrow> bool" where
  "in_int4 x = (int4_min \<le> x \<and> x \<le> int4_max)"

text \<open>Comparison and conjunction are three-valued: \<open>None\<close> is \<^verbatim>\<open>NULL\<close> (unknown).\<close>

definition sql_ge :: "int option \<Rightarrow> int option \<Rightarrow> bool option" where
  "sql_ge a b = (case (a, b) of (Some x, Some y) \<Rightarrow> Some (x \<ge> y) | _ \<Rightarrow> None)"

definition sql_le :: "int option \<Rightarrow> int option \<Rightarrow> bool option" where
  "sql_le a b = (case (a, b) of (Some x, Some y) \<Rightarrow> Some (x \<le> y) | _ \<Rightarrow> None)"

definition sql_and :: "bool option \<Rightarrow> bool option \<Rightarrow> bool option" where
  "sql_and a b =
     (if a = Some False \<or> b = Some False then Some False
      else if a = Some True \<and> b = Some True then Some True
      else None)"

text \<open>A \<^verbatim>\<open>CHECK\<close> constraint rejects a row only when its condition is false.\<close>

definition check_passes :: "bool option \<Rightarrow> bool" where
  "check_passes c = (c \<noteq> Some False)"

text \<open>Division of two \<^verbatim>\<open>FLOAT\<close>s: \<^verbatim>\<open>NULL\<close> if an operand is, an error on a zero divisor.\<close>

definition float_div :: "rat option \<Rightarrow> rat option \<Rightarrow> sql_error + rat option" where
  "float_div a b =
     (case (a, b) of
        (Some x, Some y) \<Rightarrow> if y = 0 then Inl DivisionByZero else Inr (Some (x / y))
      | _ \<Rightarrow> Inr None)"

section \<open>The rate per 100 trips\<close>

text \<open>
  \<^verbatim>\<open>calculate_rate_per_100(stops INTEGER, trips INTEGER) RETURNS FLOAT\<close>: the guard
  \<^verbatim>\<open>IF trips = 0\<close> is not taken when \<^verbatim>\<open>trips\<close> is \<^verbatim>\<open>NULL\<close>.
\<close>

definition calculate_rate_per_100 :: "int option \<Rightarrow> int option \<Rightarrow> sql_error + rat option" where
  "calculate_rate_per_100 stops trips =
     (if trips = Some 0 then Inr (Some 0)
      else (case float_div (map_option of_int stops) (map_option of_int trips) of
              Inl e \<Rightarrow> Inl e
            | Inr q \<Rightarrow> Inr (map_option (\<lambda>x. x * 100) q)))"

section \<open>Tables\<close>

text \<open>
  A value of an enumerated type is given by its label; a label that the type does not
  have is refused when the row is read.
\<close>

definition age_bracket_enum :: "string list" where
  "age_bracket_enum = [''18-24'', ''25-34'', ''35-44'', ''45+'']"

definition gender_enum :: "string list" where
  "gender_enum = [''Male'', ''Female'', ''Nonbinary'', ''PreferNot'']"

definition ethnicity_enum :: "string list" where
  "ethnicity_enum =
     [''Anglo Australian'', ''Indigenous'', ''South Asian'', ''East Asian'',
      ''Southeast Asian'', ''Middle Eastern'', ''African'', ''European'',
      ''Latin American'', ''Other'', ''PreferNot'']"

definition skin_tone_enum :: "string list" where
  "skin_tone_enum = [''Light'', ''Medium'', ''Dark'', ''PreferNot'']"

definition height_bracket_enum :: "string list" where
  "height_bracket_enum = [''<160'', ''160-175'', ''175-190'', ''>190'']"

definition model_type_enum :: "string list" where
  "model_type_enum = [''poisson'', ''negbin'', ''lightgbm'']"

definition enum_input :: "string list \<Rightarrow> string option \<Rightarrow> bool" where
  "enum_input labels v = (case v of None \<Rightarrow> True | Some l \<Rightarrow> l \<in> set labels)"

definition int4_input :: "int option \<Rightarrow> bool" where
  "int4_input v = (case v of None \<Rightarrow> True | Some x \<Rightarrow> in_int4 x)"

type_synonym uuid = nat

subsection \<open>Table \<^verbatim>\<open>submissions\<close>\<close>

text \<open>
  The columns \<^verbatim>\<open>id\<close> and \<^verbatim>\<open>created_at\<close> are filled by their defaults and read by no
  constraint; they are left out of the row.
\<close>

record submission =
  age_bracket :: "string option"
  gender :: "string option"
  ethnicity :: "string option"
  skin_tone :: "string option"
  height_bracket :: "string option"
  visible_disability :: "bool option"
  concession :: "bool option"
  trips :: "int option"
  stops :: "int option"
  user_agent_hash :: "string option"

text \<open>
  The error that storing a row raises, \<open>None\<close> when the row is accepted: the values are
  read into their column types, then \<^verbatim>\<open>NOT NULL\<close>, then the three \<^verbatim>\<open>CHECK\<close>s
  (\<^verbatim>\<open>trips >= 1 AND trips <= 200\<close>, \<^verbatim>\<open>stops >= 0\<close>, \<^verbatim>\<open>stops <= trips\<close>).
\<close>

definition submissions_error :: "submission \<Rightarrow> sql_error option" where
  "submissions_error r =
     (if \<not> (enum_input age_bracket_enum (age_bracket r)
             \<and> enum_input gender_enum (gender r)
             \<and> enum_input ethnicity_enum (ethnicity r)
             \<and> enum_input skin_tone_enum (skin_tone r)
             \<and> enum_input height_bracket_enum (height_bracket r))
      then Some InvalidTextRepresentation
      else if \<not> (int4_input (trips r) \<and> int4_input (stops r))
      then Some NumericValueOutOfRange
      else if trips r = None \<or> stops r = None
      then Some NotNullViolation
      else if \<not> check_passes (sql_and (sql_ge (trips r) (Some 1)) (sql_le (trips r) (Some 200)))
      then Some CheckViolation
      else if \<not> check_passes (sql_ge (stops r) (Some 0))
      then Some CheckViolation
      else if \<not> check_passes (sql_le (stops r) (trips r))
      then Some CheckViolation
      else None)"

definition insert_submission :: "submission \<Rightarrow> submission list \<Rightarrow> sql_error + submission list" where
  "insert_submission r tab =
     (case submissions_error r of Some e \<Rightarrow> Inl e | None \<Rightarrow> Inr (tab @ [r]))"

text \<open>An \<^verbatim>\<open>UPDATE\<close> of the row at position \<open>i\<close> is checked like an insert.\<close>

definition update_submission :: "nat \<Rightarrow> submission \<Rightarrow> submission list \<Rightarrow> sql_error + submission list" where
  "update_submission i r tab =
     (if i < length tab
      then (case submissions_error r of Some e \<Rightarrow> Inl e | None \<Rightarrow> Inr (tab[i := r]))
      else Inr tab)"

definition delete_row :: "nat \<Rightarrow> 'a list \<Rightarrow> 'a list" where
  "delete_row i tab = take i tab @ drop (Suc i) tab"

text \<open>A multi-row \<^verbatim>\<open>INSERT\<close> stores all its rows or none.\<close>

fun insert_submissions :: "submission list \<Rightarrow> submission list \<Rightarrow> sql_error + submission list" where
  "insert_submissions [] tab = Inr tab"
| "insert_submissions (r # rs) tab =
     (case insert_submission r tab of
        Inl e \<Rightarrow> Inl e
      | Inr tab' \<Rightarrow> insert_submissions rs tab')"

text \<open>The contents the table can have: it starts empty and changes by these statements.\<close>

inductive submissions_table :: "submission list \<Rightarrow> bool" where
  submissions_empty: "submissions_table []"
| submissions_insert:
    "submissions_table tab \<Longrightarrow> insert_submission r tab = Inr tab' \<Longrightarrow> submissions_table tab'"
| submissions_update:
    "submissions_table tab \<Longrightarrow> update_submission i r tab = Inr tab' \<Longrightarrow> submissions_table tab'"
| submissions_delete:
    "submissions_table tab \<Longrightarrow> submissions_table (delete_row i tab)"

subsection \<open>Table \<^verbatim>\<open>model_runs\<close>\<close>

record model_run =
  run_id :: uuid
  model_type :: "string option"
  train_rows :: "int option"
  metrics :: "string option"
  coeffs :: "string option"
  public_snapshot :: "bool option"
  notes_text :: "string option"

definition model_runs_error :: "model_run list \<Rightarrow> model_run \<Rightarrow> sql_error option" where
  "model_runs_error tab r =
     (if \<not> enum_input model_type_enum (model_type r) then Some InvalidTextRepresentation
      else if \<not> int4_input (train_rows r) then Some NumericValueOutOfRange
      else if model_type r = None \<or> train_rows r = None then Some NotNullViolation
      else if run_id r \<in> set (map run_id tab) then Some UniqueViolation
      else None)"

definition insert_model_run :: "model_run \<Rightarrow> model_run list \<Rightarrow> sql_error + model_run list" where
  "insert_model_run r tab =
     (case model_runs_error tab r of Some e \<Rightarrow> Inl e | None \<Rightarrow> Inr (tab @ [r]))"

subsection \<open>Table \<^verbatim>\<open>aggregates_public\<close>\<close>

record aggregate =
  group_key :: "string option"
  n_people :: "int option"
  n_trips :: "int option"
  n_stops :: "int option"
  rate_per_100 :: "rat option"
  irr_vs_ref :: "rat option"
  confidence_interval_lower :: "rat option"
  confidence_interval_upper :: "rat option"
  model_run_id :: "uuid option"

text \<open>
  The \<^verbatim>\<open>CHECK (n_people >= 50)\<close> alone lets a \<^verbatim>\<open>NULL\<close> through; \<^verbatim>\<open>NOT NULL\<close> refuses it.
  The first argument is the \<^verbatim>\<open>model_runs\<close> table that \<^verbatim>\<open>model_run_id\<close> refers to.
\<close>

definition aggregates_public_error :: "model_run list \<Rightarrow> aggregate \<Rightarrow> sql_error option" where
  "aggregates_public_error runs c =
     (if \<not> (int4_input (n_people c) \<and> int4_input (n_trips c) \<and> int4_input (n_stops c))
      then Some NumericValueOutOfRange
      else if group_key c = None \<or> n_people c = None \<or> n_trips c = None
              \<or> n_stops c = None \<or> rate_per_100 c = None
      then Some NotNullViolation
      else if \<not> check_passes (sql_ge (n_people c) (Some 50))
      then Some CheckViolation
      else if (case model_run_id c of None \<Rightarrow> False | Some u \<Rightarrow> u \<notin> set (map run_id runs))
      then Some ForeignKeyViolation
      else None)"

definition insert_aggregate :: "model_run list \<Rightarrow> aggregate \<Rightarrow> aggregate list \<Rightarrow> sql_error + aggregate list" where
  "insert_aggregate runs c tab =
     (case aggregates_public_error runs c of Some e \<Rightarrow> Inl e | None \<Rightarrow> Inr (tab @ [c]))"

definition update_aggregate :: "model_run list \<Rightarrow> nat \<Rightarrow> aggregate \<Rightarrow> aggregate list \<Rightarrow> sql_error + aggregate list" where
  "update_aggregate runs i c tab =
     (if i < length tab
      then (case aggregates_public_error runs c of Some e \<Rightarrow> Inl e | None \<Rightarrow> Inr (tab[i := c]))
      else Inr tab)"

inductive aggregates_public_table :: "aggregate list \<Rightarrow> bool" where
  aggregates_empty: "aggregates_public_table []"
| aggregates_insert:
    "aggregates_public_table tab \<Longrightarrow> insert_aggregate runs c tab = Inr tab'
     \<Longrightarrow> aggregates_public_table tab'"
| aggregates_update:
    "aggregates_public_table tab \<Longrightarrow> update_aggregate runs i c tab = Inr tab'
     \<Longrightarrow> aggregates_public_table tab'"
| aggregates_delete:
    "aggregates_public_table tab \<Longrightarrow> aggregates_public_table (delete_row i tab)"

text \<open>
  What a public reader gets: the policy on \<^verbatim>\<open>aggregates_public\<close> is
  \<^verbatim>\<open>FOR SELECT USING (true)\<close>, so every stored row is visible.
\<close>

definition select_aggregates_public :: "aggregate list \<Rightarrow> aggregate list" where
  "select_aggregates_public tab = filter (\<lambda>c. True) tab"

section \<open>Aggregates over the submissions\<close>

definition sql_sum :: "int option list \<Rightarrow> int option" where
  "sql_sum vs = (case List.map_filter (\<lambda>v. v) vs of [] \<Rightarrow> None | x # xs \<Rightarrow> Some (sum_list (x # xs)))"

definition sql_avg :: "rat option list \<Rightarrow> rat option" where
  "sql_avg vs =
     (case List.map_filter (\<lambda>v. v) vs of
        [] \<Rightarrow> None
      | x # xs \<Rightarrow> Some (sum_list (x # xs) / of_nat (length (x # xs))))"

definition coalesce :: "'a option \<Rightarrow> 'a \<Rightarrow> 'a" where
  "coalesce v d = (case v of None \<Rightarrow> d | Some x \<Rightarrow> x)"

text \<open>Storing a \<^verbatim>\<open>BIGINT\<close> aggregate in an \<^verbatim>\<open>INTEGER\<close> variable raises when it does not fit.\<close>

definition to_int4 :: "int \<Rightarrow> sql_error + int" where
  "to_int4 x = (if in_int4 x then Inr x else Inl NumericValueOutOfRange)"

subsection \<open>\<^verbatim>\<open>check_minimum_sample\<close>\<close>

record minimum_sample =
  total_submissions :: int
  total_stops :: int
  meets_minimum :: bool

definition check_minimum_sample :: "submission list \<Rightarrow> sql_error + minimum_sample" where
  "check_minimum_sample tab =
     (let min_submissions = 500; min_stops = 100 in
      case to_int4 (int (length tab)) of
        Inl e \<Rightarrow> Inl e
      | Inr sub_count \<Rightarrow>
          (case to_int4 (coalesce (sql_sum (map stops tab)) 0) of
             Inl e \<Rightarrow> Inl e
           | Inr stop_count \<Rightarrow>
               Inr \<lparr>total_submissions = sub_count,
                    total_stops = stop_count,
                    meets_minimum = (sub_count \<ge> min_submissions \<and> stop_count \<ge> min_stops)\<rparr>))"

subsection \<open>View \<^verbatim>\<open>public_stats\<close>\<close>

text \<open>
  The view's two timestamp columns are left out with \<^verbatim>\<open>created_at\<close>. The sums are
  \<^verbatim>\<open>BIGINT\<close>s, whose range no table of these rows can leave.
\<close>

record public_stats_row =
  total_submissions_view :: int
  total_trips :: "int option"
  total_stops_view :: "int option"
  avg_rate_per_100 :: "rat option"

fun collect :: "('e + 'a) list \<Rightarrow> 'e + 'a list" where
  "collect [] = Inr []"
| "collect (x # xs) =
     (case x of
        Inl e \<Rightarrow> Inl e
      | Inr v \<Rightarrow> (case collect xs of Inl e \<Rightarrow> Inl e | Inr vs \<Rightarrow> Inr (v # vs)))"

definition public_stats :: "submission list \<Rightarrow> sql_error + public_stats_row" where
  "public_stats tab =
     (case collect (map (\<lambda>r. calculate_rate_per_100 (stops r) (trips r)) tab) of
        Inl e \<Rightarrow> Inl e
      | Inr rates \<Rightarrow>
          Inr \<lparr>total_submissions_view = int (length tab),
               total_trips = sql_sum (map trips tab),
               total_stops_view = sql_sum (map stops tab),
               avg_rate_per_100 = sql_avg rates\<rparr>)"

subsection \<open>\<^verbatim>\<open>insert_sample_data\<close>\<close>

definition sample_rows :: "submission list" where
  "sample_rows =
     [\<lparr>age_bracket = Some ''25-34'', gender = Some ''Male'', ethnicity = Some ''Anglo Australian'',
       skin_tone = Some ''Light'', height_bracket = Some ''175-190'',
       visible_disability = Some False, concession = Some False,
       trips = Some 20, stops = Some 1, user_agent_hash = None\<rparr>,
      \<lparr>age_bracket = Some ''35-44'', gender = Some ''Female'', ethnicity = Some ''South Asian'',
       skin_tone = Some ''Medium'', height_bracket = Some ''160-175'',
       visible_disability = Some False, concession = Some True,
       trips = Some 25, stops = Some 2, user_agent_hash = None\<rparr>,
      \<lparr>age_bracket = Some ''18-24'', gender = Some ''Nonbinary'', ethnicity = Some ''East Asian'',
       skin_tone = Some ''Light'', height_bracket = Some ''<160'',
       visible_disability = Some False, concession = Some True,
       trips = Some 15, stops = Some 0, user_agent_hash = None\<rparr>,
      \<lparr>age_bracket = Some ''45+'', gender = Some ''Male'', ethnicity = Some ''Indigenous'',
       skin_tone = Some ''Dark'', height_bracket = Some ''>190'',
       visible_disability = Some True, concession = Some True,
       trips = Some 30, stops = Some 3, user_agent_hash = None\<rparr>]"

definition insert_sample_data :: "submission list \<Rightarrow> sql_error + submission list" where
  "insert_sample_data tab = insert_submissions sample_rows tab"

section \<open>The submission form\<close>

text \<open>
  The form configuration \<^verbatim>\<open>lib/formConfig.ts\<close> and the component \<^verbatim>\<open>SubmissionForm\<close>.
  A value held by the form is \<^verbatim>\<open>undefined\<close>, \<^verbatim>\<open>null\<close>, a number, a string or a boolean;
  a number is a finite one, taken exactly.
\<close>

datatype fval = VUndefined | VNull | VNum rat | VStr string | VBool bool

datatype input_type = Select | Number | Boolean

record FormField =
  id_field :: string
  label :: string
  type_field :: input_type
  options :: "(string \<times> string) list"
  required :: bool
  min_field :: "rat option"
  max_field :: "rat option"
  description :: string

definition formFields :: "FormField list" where
  "formFields =
     [\<lparr>id_field = ''trips'', label = ''Total trips in last 30 days'', type_field = Number,
       options = [], required = True, min_field = Some 1, max_field = Some 200,
       description = ''How many times did you use public transport in Melbourne in the last 30 days?''\<rparr>,
      \<lparr>id_field = ''stops'', label = ''Times stopped by fare inspectors'', type_field = Number,
       options = [], required = True, min_field = Some 0, max_field = None,
       description = ''How many times were you checked by fare inspectors in the last 30 days?''\<rparr>,
      \<lparr>id_field = ''age_bracket'', label = ''Age bracket'', type_field = Select,
       options = [(''18-24'', ''18-24 years''), (''25-34'', ''25-34 years''),
                  (''35-44'', ''35-44 years''), (''45+'', ''45+ years'')],
       required = False, min_field = None, max_field = None,
       description = ''Your age group (optional)''\<rparr>,
      \<lparr>id_field = ''gender'', label = ''Gender'', type_field = Select,
       options = [(''Male'', ''Male''), (''Female'', ''Female''),
                  (''Nonbinary'', ''Non-binary''), (''PreferNot'', ''Prefer not to say'')],
       required = False, min_field = None, max_field = None,
       description = ''Your gender identity (optional)''\<rparr>,
      \<lparr>id_field = ''ethnicity'', label = ''Ethnicity'', type_field = Select,
       options = [(''Anglo Australian'', ''Anglo Australian''),
                  (''Indigenous'', ''Indigenous Australian''),
                  (''South Asian'', ''South Asian''), (''East Asian'', ''East Asian''),
                  (''Southeast Asian'', ''Southeast Asian''),
                  (''Middle Eastern'', ''Middle Eastern''), (''African'', ''African''),
                  (''European'', ''European''), (''Latin American'', ''Latin American''),
                  (''Other'', ''Other''), (''PreferNot'', ''Prefer not to say'')],
       required = False, min_field = None, max_field = None,
       description = ''Your ethnic background (optional)''\<rparr>,
      \<lparr>id_field = ''skin_tone'', label = ''Skin tone'', type_field = Select,
       options = [(''Light'', ''Light''), (''Medium'', ''Medium''), (''Dark'', ''Dark''),
                  (''PreferNot'', ''Prefer not to say'')],
       required = False, min_field = None, max_field = None,
       description = ''Your skin tone (optional)''\<rparr>,
      \<lparr>id_field = ''height_bracket'', label = ''Height'', type_field = Select,
       options = [(''<160'', ''Under 160cm''), (''160-175'', ''160-175cm''),
                  (''175-190'', ''175-190cm''), (''>190'', ''Over 190cm''),
                  (''PreferNot'', ''Prefer not to say'')],
       required = False, min_field = None, max_field = None,
       description = ''Your height range (optional)''\<rparr>,
      \<lparr>id_field = ''visible_disability'', label = ''Visible disability'', type_field = Boolean,
       options = [], required = False, min_field = None, max_field = None,
       description = ''Do you have a visible disability? (optional)''\<rparr>,
      \<lparr>id_field = ''concession'', label = ''Concession or MYKI Money'', type_field = Boolean,
       options = [], required = False, min_field = None, max_field = None,
       description = ''Do you use a concession card or MYKI Money? (optional)''\<rparr>]"

definition stepsConfig :: "string list list" where
  "stepsConfig =
     [[''trips'', ''stops''],
      [''age_bracket'', ''gender''],
      [''ethnicity'', ''skin_tone''],
      [''height_bracket'', ''visible_disability'', ''concession'']]"

text \<open>\<^verbatim>\<open>stepsConfig[step]\<close>: \<^verbatim>\<open>undefined\<close> (\<open>None\<close>) outside the array.\<close>

definition stepsConfig_at :: "int \<Rightarrow> string list option" where
  "stepsConfig_at step =
     (if 0 \<le> step \<and> step < int (length stepsConfig) then Some (stepsConfig ! nat step) else None)"

definition getFieldsByStep :: "int \<Rightarrow> FormField list" where
  "getFieldsByStep step =
     filter (\<lambda>field. case stepsConfig_at step of
                        None \<Rightarrow> False
                      | Some ids \<Rightarrow> id_field field \<in> set ids)
            formFields"

definition totalSteps :: int where
  "totalSteps = 4"

text \<open>
  The error texts are kept as the template and its arguments; \<open>NoMessage\<close> is the empty
  string that \<^verbatim>\<open>updateField\<close> stores.
\<close>

datatype message =
    NoMessage
  | IsRequired string
  | MustBeAtLeast string rat
  | MustBeNoMoreThan string rat
  | StopsCannotExceedTrips

record FormState =
  data :: "string \<Rightarrow> fval"
  errors :: "(string \<times> message) list"
  isSubmitting :: bool
  currentStep :: int

record SubmissionForm =
  formState :: FormState
  showSuccess :: bool

definition initialFormState :: FormState where
  "initialFormState =
     \<lparr>data = (\<lambda>k. VUndefined)(''trips'' := VNum 0, ''stops'' := VNum 0),
      errors = [], isSubmitting = False, currentStep = 0\<rparr>"

definition initialForm :: SubmissionForm where
  "initialForm = \<lparr>formState = initialFormState, showSuccess = False\<rparr>"

text \<open>
  \<^verbatim>\<open>Number(value)\<close>, \<open>None\<close> for \<^verbatim>\<open>NaN\<close>. A non-empty string that the form holds is the
  label of a select option, and none of those reads as a number.
\<close>

fun toNumber :: "fval \<Rightarrow> rat option" where
  "toNumber VUndefined = None"
| "toNumber VNull = Some 0"
| "toNumber (VNum x) = Some x"
| "toNumber (VStr s) = (if s = [] then Some 0 else None)"
| "toNumber (VBool b) = Some (if b then 1 else 0)"

fun truthy :: "fval \<Rightarrow> bool" where
  "truthy VUndefined = False"
| "truthy VNull = False"
| "truthy (VNum x) = (x \<noteq> 0)"
| "truthy (VStr s) = (s \<noteq> [])"
| "truthy (VBool b) = b"

text \<open>A comparison with \<^verbatim>\<open>NaN\<close> is false.\<close>

definition js_less :: "rat option \<Rightarrow> rat option \<Rightarrow> bool" where
  "js_less a b = (case (a, b) of (Some x, Some y) \<Rightarrow> x < y | _ \<Rightarrow> False)"

definition updateField :: "string \<Rightarrow> fval \<Rightarrow> FormState \<Rightarrow> FormState" where
  "updateField fieldId v prev =
     prev\<lparr>data := (data prev)(fieldId := v),
          errors := AList.update fieldId NoMessage (errors prev)\<rparr>"

text \<open>The body of the \<^verbatim>\<open>forEach\<close> in \<^verbatim>\<open>validateCurrentStep\<close>, for one field.\<close>

definition validate_field :: "FormState \<Rightarrow> FormField \<Rightarrow> (string \<times> message) list \<Rightarrow> (string \<times> message) list" where
  "validate_field st field errs =
     (let v = data st (id_field field);
          errs1 =
            (if required field \<and> (v = VNull \<or> v = VUndefined \<or> v = VStr [])
             then AList.update (id_field field) (IsRequired (label field)) errs
             else errs);
          errs2 =
            (if type_field field = Number \<and> v \<noteq> VNull \<and> v \<noteq> VUndefined
             then
               (let numValue = toNumber v;
                    errs_min =
                      (case min_field field of
                         None \<Rightarrow> errs1
                       | Some lo \<Rightarrow>
                           if js_less numValue (Some lo)
                           then AList.update (id_field field) (MustBeAtLeast (label field) lo) errs1
                           else errs1)
                in (case max_field field of
                      None \<Rightarrow> errs_min
                    | Some hi \<Rightarrow>
                        if js_less (Some hi) numValue
                        then AList.update (id_field field) (MustBeNoMoreThan (label field) hi) errs_min
                        else errs_min))
             else errs1)
      in (if id_field field = ''stops'' \<and> truthy (data st ''trips'') \<and> v \<noteq> VNull \<and> v \<noteq> VUndefined
          then (if js_less (toNumber (data st ''trips'')) (toNumber v)
                then AList.update (id_field field) StopsCannotExceedTrips errs2
                else errs2)
          else errs2))"

text \<open>
  \<^verbatim>\<open>validateCurrentStep\<close> stores the errors and returns whether there are none
  (\<^verbatim>\<open>Object.keys(errors).length === 0\<close>).
\<close>

definition validateCurrentStep :: "FormState \<Rightarrow> FormState \<times> bool" where
  "validateCurrentStep st =
     (let errs = fold (validate_field st) (getFieldsByStep (currentStep st)) []
      in (st\<lparr>errors := errs\<rparr>, errs = []))"

definition handleNext :: "FormState \<Rightarrow> FormState" where
  "handleNext st =
     (case validateCurrentStep st of
        (st', ok) \<Rightarrow>
          if ok then st'\<lparr>currentStep := min (currentStep st' + 1) (totalSteps - 1)\<rparr> else st')"

definition handlePrevious :: "FormState \<Rightarrow> FormState" where
  "handlePrevious st = st\<lparr>currentStep := max (currentStep st - 1) 0\<rparr>"

text \<open>
  \<^verbatim>\<open>handleSubmit\<close> waits for the response, and other events may come in between: it is
  two steps, before the request and after the response (\<open>ok\<close> is \<^verbatim>\<open>response.ok\<close>).
\<close>

definition handleSubmit_begin :: "SubmissionForm \<Rightarrow> SubmissionForm" where
  "handleSubmit_begin c =
     (case validateCurrentStep (formState c) of
        (st', valid) \<Rightarrow>
          if \<not> valid then c\<lparr>formState := st'\<rparr>
          else c\<lparr>formState := st'\<lparr>isSubmitting := True\<rparr>\<rparr>)"

definition handleSubmit_end :: "bool \<Rightarrow> SubmissionForm \<Rightarrow> SubmissionForm" where
  "handleSubmit_end ok c =
     c\<lparr>formState := (formState c)\<lparr>isSubmitting := False\<rparr>,
       showSuccess := (if ok then True else showSuccess c)\<rparr>"

definition handleReset :: "SubmissionForm \<Rightarrow> SubmissionForm" where
  "handleReset c = \<lparr>formState = initialFormState, showSuccess = False\<rparr>"

datatype action =
    UpdateField string fval
  | Next
  | Previous
  | SubmitBegin
  | SubmitEnd bool
  | Reset

fun dispatch :: "action \<Rightarrow> SubmissionForm \<Rightarrow> SubmissionForm" where
  "dispatch (UpdateField fieldId v) c = c\<lparr>formState := updateField fieldId v (formState c)\<rparr>"
| "dispatch Next c = c\<lparr>formState := handleNext (formState c)\<rparr>"
| "dispatch Previous c = c\<lparr>formState := handlePrevious (formState c)\<rparr>"
| "dispatch SubmitBegin c = handleSubmit_begin c"
| "dispatch (SubmitEnd ok) c = handleSubmit_end ok c"
| "dispatch Reset c = handleReset c"

text \<open>The form after a sequence of events, the first event first.\<close>

definition run_form :: "action list \<Rightarrow> SubmissionForm \<Rightarrow> SubmissionForm" where
  "run_form evs c = fold dispatch evs c"

section \<open>The submit route\<close>

text \<open>
  The handler \<^verbatim>\<open>POST\<close> of the frontend's submit route reads a JSON body with
  \<^verbatim>\<open>request.json()\<close>, replaces values and forwards \<^verbatim>\<open>JSON.stringify\<close> of the result to
  the backend. A JSON text is the value it denotes: a number is the rational that its
  literal stands for, an object is the list of its properties in the order in which the
  parsed object enumerates them, each key once.
\<close>

datatype json =
    JNull
  | JBool bool
  | JNumber rat
  | JString string
  | JArray "json list"
  | JObject "(string \<times> json) list"

text \<open>
  A value of the handler. Its numbers are doubles: a finite double is the rational that
  it is (the sign of zero is not kept, \<^verbatim>\<open>JSON.stringify\<close> writes \<^verbatim>\<open>0\<close> for both zeros),
  and there are the two infinities; \<^verbatim>\<open>NaN\<close> does not come out of a JSON text.
\<close>

datatype js_number = Finite rat | PosInfinity | NegInfinity

datatype jsvalue =
    JsNull
  | JsBool bool
  | JsNumber js_number
  | JsString string
  | JsArray "jsvalue list"
  | JsObject "(string \<times> jsvalue) list"

subsection \<open>Reading a number\<close>

text \<open>
  \<^verbatim>\<open>JSON.parse\<close> reads a number as the double nearest to it, a tie going to the even
  significand, and as an infinity when that is beyond the largest double. For \<open>a > 0\<close>,
  \<open>binary_exponent a\<close> is the \<open>e\<close> with \<open>2\<^sup>e \<le> a < 2\<^sup>e\<^sup>+\<^sup>1\<close>; the doubles near \<open>a\<close> are
  the multiples of \<open>2\<close> to the power \<open>max e (-1022) - 52\<close>.
\<close>

function bit_length :: "int \<Rightarrow> int" where
  "bit_length n = (if n \<le> 0 then 0 else 1 + bit_length (n div 2))"
  by pat_completeness auto
termination
  by (relation "measure nat") auto

declare bit_length.simps [simp del]

definition pow2 :: "int \<Rightarrow> rat" where
  "pow2 e = (if 0 \<le> e then 2 ^ nat e else 1 / 2 ^ nat (- e))"

definition pow10 :: "int \<Rightarrow> rat" where
  "pow10 e = (if 0 \<le> e then 10 ^ nat e else 1 / 10 ^ nat (- e))"

definition exponent_below_one :: "rat \<Rightarrow> int \<Rightarrow> int" where
  "exponent_below_one a m = (if a = pow2 (1 - m) then 1 - m else - m)"

definition binary_exponent :: "rat \<Rightarrow> int" where
  "binary_exponent a =
     (if 1 \<le> a then bit_length \<lfloor>a\<rfloor> - 1
      else exponent_below_one a (bit_length \<lfloor>1 / a\<rfloor>))"

definition ties_pick :: "rat \<Rightarrow> int \<Rightarrow> int" where
  "ties_pick m f =
     (if m - of_int f < 1 / 2 then f
      else if 1 / 2 < m - of_int f then f + 1
      else if even f then f
      else f + 1)"

definition ties_to_even :: "rat \<Rightarrow> int" where
  "ties_to_even m = ties_pick m \<lfloor>m\<rfloor>"

definition round_to_unit :: "rat \<Rightarrow> rat \<Rightarrow> rat" where
  "round_to_unit u a = of_int (ties_to_even (a / u)) * u"

definition nearest_double :: "rat \<Rightarrow> rat" where
  "nearest_double a = round_to_unit (pow2 (max (binary_exponent a) (- 1022) - 52)) a"

definition signed_double :: "rat \<Rightarrow> rat \<Rightarrow> js_number" where
  "signed_double x d =
     (if pow2 1024 \<le> d then (if 0 < x then PosInfinity else NegInfinity)
      else Finite (if 0 < x then d else - d))"

definition to_double :: "rat \<Rightarrow> js_number" where
  "to_double x =
     (if x = 0 then Finite 0
      else if pow2 1024 \<le> \<bar>x\<bar> then (if 0 < x then PosInfinity else NegInfinity)
      else signed_double x (nearest_double \<bar>x\<bar>))"

subsection \<open>Writing a number\<close>

text \<open>
  The decimal numeral of a natural number; it is also the property key of an array
  index.
\<close>

definition digit_char :: "nat \<Rightarrow> char" where
  "digit_char d = char_of (48 + d)"

fun decimal :: "nat \<Rightarrow> string" where
  "decimal n = (if n < 10 then [digit_char n] else decimal (n div 10) @ [digit_char (n mod 10)])"

declare decimal.simps [simp del]

text \<open>
  \<^verbatim>\<open>JSON.stringify\<close> writes a finite double as the decimal with the fewest significant
  digits that reads back as that double, the one closest to it if there are two, and the
  one with the even last digit if both are as close. For \<open>a > 0\<close>, \<open>decimal_exponent a\<close> is
  the \<open>n\<close> with \<open>10\<^sup>n\<^sup>-\<^sup>1 \<le> a < 10\<^sup>n\<close>; the decimals of \<open>k\<close> digits around \<open>a\<close> are the two
  neighbouring multiples of \<open>10\<^sup>n\<^sup>-\<^sup>k\<close>. Seventeen digits are enough for every double.
  \<open>number_text d\<close> is the number that the text written for \<open>d\<close> denotes.
\<close>

definition decimal_exponent :: "rat \<Rightarrow> int" where
  "decimal_exponent a =
     (if 1 \<le> a then int (length (decimal (nat \<lfloor>a\<rfloor>)))
      else if a = pow10 (1 - int (length (decimal (nat \<lfloor>1 / a\<rfloor>))))
      then 2 - int (length (decimal (nat \<lfloor>1 / a\<rfloor>)))
      else 1 - int (length (decimal (nat \<lfloor>1 / a\<rfloor>))))"

definition digits_choose :: "rat \<Rightarrow> int \<Rightarrow> rat \<Rightarrow> rat \<Rightarrow> bool \<Rightarrow> bool \<Rightarrow> rat option" where
  "digits_choose a lo c1 c2 ok1 ok2 =
     (if ok1 \<and> ok2
      then Some (if a - c1 < c2 - a then c1
                 else if c2 - a < a - c1 then c2
                 else if even lo then c1 else c2)
      else if ok1 then Some c1
      else if ok2 then Some c2
      else None)"

definition digits_between :: "rat \<Rightarrow> int \<Rightarrow> rat \<Rightarrow> rat \<Rightarrow> rat option" where
  "digits_between a lo c1 c2 =
     digits_choose a lo c1 c2 (to_double c1 = Finite a) (to_double c2 = Finite a)"

definition digits_scaled :: "rat \<Rightarrow> rat \<Rightarrow> int \<Rightarrow> rat option" where
  "digits_scaled a s lo = digits_between a lo (of_int lo * s) (of_int (lo + 1) * s)"

definition digits_at :: "rat \<Rightarrow> rat \<Rightarrow> rat option" where
  "digits_at a s = digits_scaled a s \<lfloor>a / s\<rfloor>"

fun first_digits :: "rat \<Rightarrow> int \<Rightarrow> nat list \<Rightarrow> rat" where
  "first_digits a n [] = a"
| "first_digits a n (k # ks) =
     (case digits_at a (pow10 (n - int k)) of
        Some c \<Rightarrow> c
      | None \<Rightarrow> first_digits a n ks)"

definition shortest :: "rat \<Rightarrow> rat" where
  "shortest a =
     first_digits a (decimal_exponent a) [1, 2, 3, 4, 5, 6, 7, 8, 9, 10, 11, 12, 13, 14, 15, 16, 17]"

definition number_text :: "rat \<Rightarrow> rat" where
  "number_text d = (if d = 0 then 0 else if 0 < d then shortest d else - shortest (- d))"

subsection \<open>The handler\<close>

text \<open>\<^verbatim>\<open>request.json()\<close>: the value that the JSON text is read as.\<close>

primrec request_json :: "json \<Rightarrow> jsvalue" where
  "request_json JNull = JsNull"
| "request_json (JBool b) = JsBool b"
| "request_json (JNumber x) = JsNumber (to_double x)"
| "request_json (JString s) = JsString s"
| "request_json (JArray xs) = JsArray (map request_json xs)"
| "request_json (JObject kvs) = JsObject (map (map_prod (\<lambda>key. key) request_json) kvs)"

text \<open>
  The properties that the spread \<^verbatim>\<open>{ ...body }\<close> copies: those of an object, the
  indexed elements of an array, the indexed characters of a string, none of a number, a
  boolean or \<^verbatim>\<open>null\<close>.
\<close>

definition own_entries :: "jsvalue \<Rightarrow> (string \<times> jsvalue) list" where
  "own_entries body =
     (case body of
        JsObject kvs \<Rightarrow> kvs
      | JsArray xs \<Rightarrow> zip (map decimal [0..<length xs]) xs
      | JsString s \<Rightarrow> zip (map decimal [0..<length s]) (map (\<lambda>c. JsString [c]) s)
      | _ \<Rightarrow> [])"

text \<open>The body of the \<^verbatim>\<open>forEach\<close> over \<^verbatim>\<open>Object.keys(sanitizedBody)\<close>, for one property.\<close>

definition sanitize_value :: "jsvalue \<Rightarrow> jsvalue" where
  "sanitize_value v = (if v = JsString ''PreferNot'' then JsNull else v)"

definition sanitizedBody :: "jsvalue \<Rightarrow> (string \<times> jsvalue) list" where
  "sanitizedBody body = map (\<lambda>(key, v). (key, sanitize_value v)) (own_entries body)"

text \<open>\<^verbatim>\<open>JSON.stringify\<close>: an infinite number is written \<^verbatim>\<open>null\<close>.\<close>

primrec JSON_stringify :: "jsvalue \<Rightarrow> json" where
  "JSON_stringify JsNull = JNull"
| "JSON_stringify (JsBool b) = JBool b"
| "JSON_stringify (JsNumber n) =
     (case n of Finite d \<Rightarrow> JNumber (number_text d) | PosInfinity \<Rightarrow> JNull | NegInfinity \<Rightarrow> JNull)"
| "JSON_stringify (JsString s) = JString s"
| "JSON_stringify (JsArray xs) = JArray (map JSON_stringify xs)"
| "JSON_stringify (JsObject kvs) = JObject (map (map_prod (\<lambda>key. key) JSON_stringify) kvs)"

text \<open>The body of the request to the backend, for the JSON text that the route received.\<close>

definition forwarded_payload :: "json \<Rightarrow> json" where
  "forwarded_payload payload = JSON_stringify (JsObject (sanitizedBody (request_json payload)))"

text \<open>
  A value occurs in a JSON value when it is that value, or occurs in an element of the
  array or in the value of a property of the object. A JSON value is free of numbers
  when no number occurs in it.
\<close>

fun occurs :: "json \<Rightarrow> json \<Rightarrow> bool" where
  "occurs v (JArray xs) = (v = JArray xs \<or> (\<exists>x \<in> set xs. occurs v x))"
| "occurs v (JObject kvs) = (v = JObject kvs \<or> (\<exists>kv \<in> set kvs. occurs v (snd kv)))"
| "occurs v j = (v = j)"

fun number_free :: "json \<Rightarrow> bool" where
  "number_free (JNumber x) = False"
| "number_free (JArray xs) = (\<forall>x \<in> set xs. number_free x)"
| "number_free (JObject kvs) = (\<forall>kv \<in> set kvs. number_free (snd kv))"
| "number_free j = True"

section \<open>The model registry\<close>

text \<open>
  Modelled from the spec: the model registry's "current published" pointer and its
  operations to create and to publish a run (section 4.5 of the specification); the
  backend that fits and publishes models is not among the sources. The stored runs are
  rows of the table \<^verbatim>\<open>model_runs\<close>, with its primary key \<^verbatim>\<open>run_id\<close>.
\<close>

record registry =
  run_store :: "model_run list"
  current_run :: "uuid option"

text \<open>Modelled from the spec: the registry before any run is created.\<close>

definition empty_registry :: registry where
  "empty_registry = \<lparr>run_store = [], current_run = None\<rparr>"

text \<open>
  Modelled from the spec: a run is appended to the store, not yet published
  (\<^verbatim>\<open>public_snapshot\<close> has its default \<^verbatim>\<open>FALSE\<close>).
\<close>

definition create_run :: "model_run \<Rightarrow> registry \<Rightarrow> sql_error + registry" where
  "create_run r reg =
     (case insert_model_run (r\<lparr>public_snapshot := Some False\<rparr>) (run_store reg) of
        Inl e \<Rightarrow> Inl e
      | Inr tab \<Rightarrow> Inr (reg\<lparr>run_store := tab\<rparr>))"

text \<open>
  Modelled from the spec: \<open>publish\<close> swaps the current pointer to a stored run and
  sets that run's published flag; it fails when no run has the identifier.
\<close>

definition publish :: "uuid \<Rightarrow> registry \<Rightarrow> sql_error + registry" where
  "publish rid reg =
     (if rid \<in> set (map run_id (run_store reg))
      then Inr \<lparr>run_store =
                  map (\<lambda>r. if run_id r = rid then r\<lparr>public_snapshot := Some True\<rparr> else r)
                      (run_store reg),
                current_run = Some rid\<rparr>
      else Inl NoDataFound)"

text \<open>Modelled from the spec: the run that the current pointer names.\<close>

definition is_current :: "registry \<Rightarrow> model_run \<Rightarrow> bool" where
  "is_current reg r = (current_run reg = Some (run_id r))"

text \<open>Modelled from the spec: the registries that creating and publishing runs lead to.\<close>

inductive registry_state :: "registry \<Rightarrow> bool" where
  registry_empty: "registry_state empty_registry"
| registry_create: "registry_state reg \<Longrightarrow> create_run r reg = Inr reg' \<Longrightarrow> registry_state reg'"
| registry_publish: "registry_state reg \<Longrightarrow> publish rid reg = Inr reg' \<Longrightarrow> registry_state reg'"

section \<open>The fraud-signal token\<close>

text \<open>
  \<^verbatim>\<open>hash_user_agent\<close> hashes the user agent, the text of \<^verbatim>\<open>CURRENT_DATE\<close> and a constant.
  A date is its year (AD), month and day; its text is the ISO form \<^verbatim>\<open>YYYY-MM-DD\<close>.
\<close>

datatype date = Date nat nat nat

definition pad :: "nat \<Rightarrow> nat \<Rightarrow> string" where
  "pad w n = replicate (w - length (decimal n)) (CHR ''0'') @ decimal n"

fun date_text :: "date \<Rightarrow> string" where
  "date_text (Date y m d) = pad 4 y @ ''-'' @ pad 2 m @ ''-'' @ pad 2 d"

fun valid_date :: "date \<Rightarrow> bool" where
  "valid_date (Date y m d) = (1 \<le> y \<and> 1 \<le> m \<and> m \<le> 12 \<and> 1 \<le> d \<and> d \<le> 31)"

text \<open>\<^verbatim>\<open>encode(..., 'hex')\<close>: two lower-case hexadecimal digits for each byte.\<close>

definition hex_digit :: "nat \<Rightarrow> char" where
  "hex_digit d = (if d < 10 then char_of (48 + d) else char_of (87 + d))"

definition encode_hex :: "string \<Rightarrow> string" where
  "encode_hex bytes = concat (map (\<lambda>c. [hex_digit (of_char c div 16), hex_digit (of_char c mod 16)]) bytes)"

text \<open>
  The argument of \<^verbatim>\<open>digest\<close>. The function \<^verbatim>\<open>digest(..., 'sha256')\<close> itself belongs to
  the database, and is the parameter \<open>sha256\<close> below; a \<^verbatim>\<open>NULL\<close> user agent gives \<^verbatim>\<open>NULL\<close>.
\<close>

definition prehash :: "string \<Rightarrow> date \<Rightarrow> string" where
  "prehash user_agent today = user_agent @ date_text today @ ''stopodds_salt''"

definition hash_user_agent :: "(string \<Rightarrow> string) \<Rightarrow> date \<Rightarrow> string option \<Rightarrow> string option" where
  "hash_user_agent sha256 today user_agent =
     (case user_agent of
        None \<Rightarrow> None
      | Some ua \<Rightarrow> Some (encode_hex (sha256 (prehash ua today))))"

text \<open>The number that a decimal numeral stands for.\<close>

definition digit_value :: "char \<Rightarrow> nat" where
  "digit_value c = of_char c - 48"

definition decimal_value :: "string \<Rightarrow> nat" where
  "decimal_value s = foldl (\<lambda>acc c. 10 * acc + digit_value c) 0 s"

section \<open>Reference values\<close>

text \<open>
  The rate of one stored row, which \<open>calculate_rate_per_100\<close> returns for it, and a row
  at the upper end of its ranges.
\<close>

definition per_person_rate :: "submission \<Rightarrow> rat" where
  "per_person_rate r = of_int (coalesce (stops r) 0) / of_int (coalesce (trips r) 0) * 100"

definition full_row :: submission where
  "full_row =
     \<lparr>age_bracket = None, gender = None, ethnicity = None, skin_tone = None,
      height_bracket = None, visible_disability = None, concession = None,
      trips = Some 200, stops = Some 200, user_agent_hash = None\<rparr>"

text \<open>A cell of \<open>n\<close> people, with no model statistics.\<close>

definition sample_cell :: "int \<Rightarrow> aggregate" where
  "sample_cell n =
     \<lparr>group_key = Some ''gender=Male'', n_people = Some n, n_trips = Some 1000,
      n_stops = Some 60, rate_per_100 = Some 6, irr_vs_ref = None,
      confidence_interval_lower = None, confidence_interval_upper = None,
      model_run_id = None\<rparr>"

text \<open>A payload as the form sends it, and two runs of a registry.\<close>

definition form_payload :: json where
  "form_payload =
     JObject [(''trips'', JNumber 20), (''stops'', JNumber 1),
              (''gender'', JString ''Male''), (''height_bracket'', JString ''PreferNot'')]"

definition sample_run :: "uuid \<Rightarrow> model_run" where
  "sample_run u =
     \<lparr>run_id = u, model_type = Some ''poisson'', train_rows = Some 500,
      metrics = None, coeffs = None, public_snapshot = Some False, notes_text = None\<rparr>"

definition two_runs :: registry where
  "two_runs = \<lparr>run_store = [sample_run 1, sample_run 2], current_run = None\<rparr>"

text \<open>The step index of the form is one of the configured steps.\<close>

definition step_in_range :: "SubmissionForm \<Rightarrow> bool" where
  "step_in_range c = (0 \<le> currentStep (formState c) \<and> currentStep (formState c) \<le> totalSteps - 1)"

section \<open>Properties of the rate\<close>

lemma calculate_rate_per_100_zero_trips:
  "calculate_rate_per_100 s (Some 0) = Inr (Some 0)"
  by (simp add: calculate_rate_per_100_def)

lemma calculate_rate_per_100_nonzero:
  "t \<noteq> 0 \<Longrightarrow>
   calculate_rate_per_100 (Some s) (Some t) = Inr (Some (of_int s / of_int t * 100))"
  by (simp add: calculate_rate_per_100_def float_div_def)

lemma calculate_rate_per_100_no_error:
  "calculate_rate_per_100 s t \<noteq> Inl e"
  by (cases s; cases t)
     (auto simp: calculate_rate_per_100_def float_div_def)

text \<open>
  Claim C4. For every pair of non-negative integers \<open>(stops, trips)\<close> the function
  \<open>calculate_rate_per_100\<close> returns \<open>stops / trips \<times> 100\<close> when \<open>trips\<close> is not zero
  and exactly \<open>0\<close> when \<open>trips = 0\<close>; the division never raises, so the function is total.
\<close>

theorem calculate_rate_per_100_correct:
  assumes "0 \<le> s" and "0 \<le> t"
  shows "calculate_rate_per_100 (Some s) (Some t) =
           Inr (Some (if t = 0 then 0 else of_int s / of_int t * 100))
         \<and> calculate_rate_per_100 (Some s) (Some 0) = Inr (Some 0)
         \<and> (\<forall>e. calculate_rate_per_100 (Some s) (Some t) \<noteq> Inl e)"
  using assms
  by (simp add: calculate_rate_per_100_def float_div_def)

theorem calculate_rate_per_100_correct_witness:
  "(0::int) \<le> 3 \<and> (0::int) \<le> 12
   \<and> calculate_rate_per_100 (Some 3) (Some 12) = Inr (Some 25)
   \<and> calculate_rate_per_100 (Some 3) (Some 0) = Inr (Some 0)"
  using calculate_rate_per_100_correct [of 3 12]
  by simp

section \<open>Rows of the submissions table\<close>

lemma check_trips_iff:
  "check_passes (sql_and (sql_ge (Some t) (Some 1)) (sql_le (Some t) (Some 200))) = (1 \<le> t \<and> t \<le> 200)"
  by (simp add: check_passes_def sql_and_def sql_ge_def sql_le_def)

lemma check_ge_iff: "check_passes (sql_ge (Some a) (Some b)) = (b \<le> a)"
  by (simp add: check_passes_def sql_ge_def)

lemma check_le_iff: "check_passes (sql_le (Some a) (Some b)) = (a \<le> b)"
  by (simp add: check_passes_def sql_le_def)

lemma submissions_error_NoneD:
  assumes "submissions_error r = None"
  shows "\<exists>t s. trips r = Some t \<and> stops r = Some s \<and> 1 \<le> t \<and> t \<le> 200 \<and> 0 \<le> s \<and> s \<le> t"
proof -
  from assms have nn: "trips r \<noteq> None" "stops r \<noteq> None"
    by (simp_all add: submissions_error_def split: if_splits)
  then obtain t s where ts: "trips r = Some t" "stops r = Some s" by auto
  from assms have c1: "check_passes (sql_and (sql_ge (trips r) (Some 1)) (sql_le (trips r) (Some 200)))"
    by (simp add: submissions_error_def split: if_splits)
  from assms have c2: "check_passes (sql_ge (stops r) (Some 0))"
    by (simp add: submissions_error_def split: if_splits)
  from assms have c3: "check_passes (sql_le (stops r) (trips r))"
    by (simp add: submissions_error_def split: if_splits)
  from c1 c2 c3 have "1 \<le> t \<and> t \<le> 200" "0 \<le> s" "s \<le> t"
    unfolding ts check_trips_iff check_ge_iff check_le_iff by blast+
  with ts show ?thesis by blast
qed


lemma submissions_error_out_of_range:
  assumes "trips r = Some t" and "stops r = Some s"
    and "\<not> (1 \<le> t \<and> t \<le> 200 \<and> 0 \<le> s \<and> s \<le> t)"
  shows "submissions_error r \<noteq> None"
proof
  assume "submissions_error r = None"
  from submissions_error_NoneD [OF this] assms show False by auto
qed

lemma set_delete_row: "set (delete_row i tab) \<subseteq> set tab"
proof -
  have "set (take i tab) \<subseteq> set tab" by (rule set_take_subset)
  moreover have "set (drop (Suc i) tab) \<subseteq> set tab" by (rule set_drop_subset)
  ultimately show ?thesis by (simp add: delete_row_def)
qed

lemma insert_submission_InrD:
  "insert_submission r tab = Inr tab' \<Longrightarrow> submissions_error r = None \<and> tab' = tab @ [r]"
  by (simp add: insert_submission_def split: option.splits)

lemma update_submission_InrD:
  "update_submission i r tab = Inr tab' \<Longrightarrow>
     tab' = tab \<or> (submissions_error r = None \<and> tab' = tab[i := r])"
  by (simp add: update_submission_def split: option.splits if_splits)

lemma submissions_table_rows:
  assumes "submissions_table tab" and "r \<in> set tab"
  shows "submissions_error r = None"
  using assms
proof (induction arbitrary: r rule: submissions_table.induct)
  case submissions_empty
  then show ?case by simp
next
  case (submissions_insert tab r' tab')
  from insert_submission_InrD [OF submissions_insert.hyps(2)]
  have "submissions_error r' = None" and "tab' = tab @ [r']" by simp_all
  with submissions_insert.IH submissions_insert.prems show ?case by auto
next
  case (submissions_update tab i r' tab')
  from update_submission_InrD [OF submissions_update.hyps(2)]
  show ?case
  proof
    assume "tab' = tab"
    with submissions_update show ?thesis by simp
  next
    assume h: "submissions_error r' = None \<and> tab' = tab[i := r']"
    have "set (tab[i := r']) \<subseteq> insert r' (set tab)" by (rule set_update_subset_insert)
    with h submissions_update.prems have "r = r' \<or> r \<in> set tab" by auto
    with h submissions_update.IH show ?thesis by auto
  qed
next
  case (submissions_delete tab i)
  from submissions_delete.prems set_delete_row [of i tab] have "r \<in> set tab" by blast
  then show ?case by (rule submissions_delete.IH)
qed

lemma insert_submission_rejects:
  assumes "submissions_error r \<noteq> None"
  shows "\<exists>e. insert_submission r tab = Inl e"
  using assms by (auto simp: insert_submission_def split: option.splits)

section \<open>Validation in the form\<close>

lemma getFieldsByStep_0:
  "getFieldsByStep 0 = [formFields ! 0, formFields ! 1]"
  by (simp add: getFieldsByStep_def stepsConfig_at_def stepsConfig_def formFields_def)

lemma update_not_Nil: "AList.update k v al \<noteq> []"
  by (cases al) auto

lemma validate_field_keeps_errors:
  "errs \<noteq> [] \<Longrightarrow> validate_field st field errs \<noteq> []"
  by (simp add: validate_field_def Let_def update_not_Nil split: option.splits)

lemma fold_validate_keeps_errors:
  "errs \<noteq> [] \<Longrightarrow> fold (validate_field st) fs errs \<noteq> []"
  by (induction fs arbitrary: errs) (simp_all add: validate_field_keeps_errors)

lemma validateCurrentStep_currentStep:
  "currentStep (fst (validateCurrentStep st)) = currentStep st"
  by (simp add: validateCurrentStep_def Let_def)

lemma handleNext_in_range:
  assumes "0 \<le> currentStep st" and "currentStep st \<le> totalSteps - 1"
  shows "0 \<le> currentStep (handleNext st) \<and> currentStep (handleNext st) \<le> totalSteps - 1"
  using assms
  by (simp add: handleNext_def validateCurrentStep_def Let_def totalSteps_def)

lemma handlePrevious_in_range:
  assumes "0 \<le> currentStep st" and "currentStep st \<le> totalSteps - 1"
  shows "0 \<le> currentStep (handlePrevious st) \<and> currentStep (handlePrevious st) \<le> totalSteps - 1"
  using assms
  by (simp add: handlePrevious_def totalSteps_def)

lemma dispatch_in_range:
  assumes "step_in_range c"
  shows "step_in_range (dispatch a c)"
proof (cases a)
  case (UpdateField k v)
  with assms show ?thesis by (simp add: step_in_range_def updateField_def)
next
  case Next
  with assms handleNext_in_range [of "formState c"] show ?thesis by (simp add: step_in_range_def)
next
  case Previous
  with assms handlePrevious_in_range [of "formState c"] show ?thesis by (simp add: step_in_range_def)
next
  case SubmitBegin
  with assms show ?thesis
    by (simp add: step_in_range_def handleSubmit_begin_def validateCurrentStep_def Let_def)
next
  case (SubmitEnd ok)
  with assms show ?thesis by (simp add: step_in_range_def handleSubmit_end_def)
next
  case Reset
  then show ?thesis
    by (simp add: step_in_range_def handleReset_def initialFormState_def totalSteps_def)
qed

lemma fold_dispatch_in_range:
  "step_in_range c \<Longrightarrow> step_in_range (fold dispatch evs c)"
  by (induction evs arbitrary: c) (simp_all add: dispatch_in_range)

lemma initialForm_in_range: "step_in_range initialForm"
  by (simp add: step_in_range_def initialForm_def initialFormState_def totalSteps_def)

lemma stepsConfig_at_in_range:
  "0 \<le> i \<Longrightarrow> i \<le> totalSteps - 1 \<Longrightarrow> stepsConfig_at i \<noteq> None"
  by (simp add: stepsConfig_at_def stepsConfig_def totalSteps_def)

lemma validate_trips_field:
  assumes "data st ''trips'' = VNum t" and "\<not> (1 \<le> t \<and> t \<le> 200)"
  shows "validate_field st (formFields ! 0) errs \<noteq> []"
  using assms
  by (auto simp: validate_field_def formFields_def Let_def js_less_def update_not_Nil)

lemma validate_stops_field:
  assumes "data st ''trips'' = VNum t" and "data st ''stops'' = VNum s"
    and "1 \<le> t" and "\<not> (0 \<le> s \<and> s \<le> t)"
  shows "validate_field st (formFields ! 1) errs \<noteq> []"
  using assms
  by (auto simp: validate_field_def formFields_def Let_def js_less_def update_not_Nil)

lemma validateCurrentStep_rejects:
  assumes "currentStep st = 0"
    and "data st ''trips'' = VNum t" and "data st ''stops'' = VNum s"
    and "\<not> (1 \<le> t \<and> t \<le> 200 \<and> 0 \<le> s \<and> s \<le> t)"
  shows "snd (validateCurrentStep st) = False"
proof (cases "1 \<le> t \<and> t \<le> 200")
  case False
  from validate_trips_field [OF assms(2) False]
  have "validate_field st (formFields ! 0) [] \<noteq> []" .
  then have "validate_field st (formFields ! 1) (validate_field st (formFields ! 0) []) \<noteq> []"
    by (rule validate_field_keeps_errors)
  then show ?thesis
    by (simp add: validateCurrentStep_def Let_def assms(1) getFieldsByStep_0)
next
  case True
  with assms(4) have "\<not> (0 \<le> s \<and> s \<le> t)" by simp
  from validate_stops_field [OF assms(2,3) _ this] True
  have "validate_field st (formFields ! 1) (validate_field st (formFields ! 0) []) \<noteq> []" by simp
  then show ?thesis
    by (simp add: validateCurrentStep_def Let_def assms(1) getFieldsByStep_0)
qed


text \<open>
  Claim C10. After any sequence of events the step index of the form lies in
  \<open>[0, totalSteps - 1]\<close>, so \<open>getFieldsByStep\<close> reads an entry that \<open>stepsConfig\<close> has:
  \<open>handlePrevious\<close> stops the decrement at \<open>0\<close>, and \<open>handleNext\<close> either leaves the step
  (the validation failed) or stops the increment at \<open>totalSteps - 1\<close>.
\<close>

theorem currentStep_in_range:
  "0 \<le> currentStep (formState (run_form evs initialForm))
   \<and> currentStep (formState (run_form evs initialForm)) \<le> totalSteps - 1
   \<and> stepsConfig_at (currentStep (formState (run_form evs initialForm))) \<noteq> None
   \<and> currentStep (handlePrevious st) = max (currentStep st - 1) 0
   \<and> (currentStep (handleNext st) = currentStep st
        \<or> currentStep (handleNext st) = min (currentStep st + 1) (totalSteps - 1))"
proof -
  have "step_in_range (run_form evs initialForm)"
    unfolding run_form_def by (rule fold_dispatch_in_range [OF initialForm_in_range])
  then have "0 \<le> currentStep (formState (run_form evs initialForm))
   \<and> currentStep (formState (run_form evs initialForm)) \<le> totalSteps - 1
   \<and> stepsConfig_at (currentStep (formState (run_form evs initialForm))) \<noteq> None"
    using stepsConfig_at_in_range by (simp add: step_in_range_def)
  moreover have "currentStep (handlePrevious st) = max (currentStep st - 1) 0"
    by (simp add: handlePrevious_def)
  moreover have "currentStep (handleNext st) = currentStep st
        \<or> currentStep (handleNext st) = min (currentStep st + 1) (totalSteps - 1)"
    by (simp add: handleNext_def validateCurrentStep_def Let_def)
  ultimately show ?thesis by blast
qed

section \<open>The sample data and the aggregates\<close>

lemma sample_rows_accepted:
  "\<forall>r \<in> set sample_rows. submissions_error r = None"
  by (simp add: sample_rows_def submissions_error_def enum_input_def int4_input_def in_int4_def
        int4_min_def int4_max_def check_passes_def sql_and_def sql_ge_def sql_le_def
        age_bracket_enum_def gender_enum_def ethnicity_enum_def skin_tone_enum_def
        height_bracket_enum_def)

lemma insert_submissions_accepted:
  "\<forall>r \<in> set rs. submissions_error r = None \<Longrightarrow> insert_submissions rs tab = Inr (tab @ rs)"
  by (induction rs arbitrary: tab) (simp_all add: insert_submission_def)

lemma insert_sample_data_empty: "insert_sample_data [] = Inr sample_rows"
  using insert_submissions_accepted [OF sample_rows_accepted, of "[]"]
  by (simp add: insert_sample_data_def)

lemma submissions_table_append:
  "submissions_table tab \<Longrightarrow> \<forall>r \<in> set rs. submissions_error r = None \<Longrightarrow> submissions_table (tab @ rs)"
proof (induction rs arbitrary: tab)
  case Nil
  then show ?case by simp
next
  case (Cons r rs)
  have "insert_submission r tab = Inr (tab @ [r])"
    using Cons.prems(2) by (simp add: insert_submission_def)
  with Cons.prems(1) have "submissions_table (tab @ [r])" by (rule submissions_insert)
  from Cons.IH [OF this] Cons.prems(2) show ?case by simp
qed

lemma submissions_table_sample: "submissions_table sample_rows"
  using submissions_table_append [OF submissions_empty sample_rows_accepted] by simp

lemma map_filter_Some: "List.map_filter (\<lambda>v. v) (map Some xs) = xs"
  by (induction xs) (simp_all add: List.map_filter_simps)

lemma sql_sum_Some: "sql_sum (map Some xs) = (if xs = [] then None else Some (sum_list xs))"
  by (cases xs) (simp_all add: sql_sum_def map_filter_Some List.map_filter_simps del: map_map)

lemma sql_avg_Some:
  "sql_avg (map Some xs) = (if xs = [] then None else Some (sum_list xs / of_nat (length xs)))"
proof (cases xs)
  case Nil
  then show ?thesis by (simp add: sql_avg_def List.map_filter_simps)
next
  case (Cons y ys)
  have "List.map_filter (\<lambda>v. v) (map Some xs) = y # ys"
    unfolding map_filter_Some Cons ..
  then show ?thesis by (simp add: sql_avg_def Cons)
qed

lemma sum_map_filter_coalesce:
  "sum_list (List.map_filter (\<lambda>v. v) vs) = sum_list (map (\<lambda>v. coalesce v (0::int)) vs)"
  by (induction vs) (auto simp: List.map_filter_simps coalesce_def split: option.splits)

lemma sql_sum_coalesce:
  "coalesce (sql_sum vs) 0 = sum_list (map (\<lambda>v. coalesce v 0) vs)"
proof -
  have "coalesce (sql_sum vs) 0 = sum_list (List.map_filter (\<lambda>v. v) vs)"
    by (cases "List.map_filter (\<lambda>v. v) vs") (simp_all add: sql_sum_def coalesce_def)
  then show ?thesis by (simp add: sum_map_filter_coalesce)
qed

lemma check_minimum_sample_in_range:
  assumes "in_int4 (int (length tab))"
    and "in_int4 (sum_list (map (\<lambda>r. coalesce (stops r) 0) tab))"
  shows "check_minimum_sample tab =
           Inr \<lparr>total_submissions = int (length tab),
                total_stops = sum_list (map (\<lambda>r. coalesce (stops r) 0) tab),
                meets_minimum = (500 \<le> int (length tab)
                                 \<and> 100 \<le> sum_list (map (\<lambda>r. coalesce (stops r) 0) tab))\<rparr>"
proof -
  have "coalesce (sql_sum (map stops tab)) 0 = sum_list (map (\<lambda>r. coalesce (stops r) 0) tab)"
    by (simp add: sql_sum_coalesce comp_def)
  with assms show ?thesis
    by (simp add: check_minimum_sample_def to_int4_def Let_def)
qed

lemma check_minimum_sample_overflow:
  assumes "\<not> in_int4 (sum_list (map (\<lambda>r. coalesce (stops r) 0) tab))"
  shows "check_minimum_sample tab = Inl NumericValueOutOfRange"
proof -
  have "coalesce (sql_sum (map stops tab)) 0 = sum_list (map (\<lambda>r. coalesce (stops r) 0) tab)"
    by (simp add: sql_sum_coalesce comp_def)
  with assms show ?thesis
    by (simp add: check_minimum_sample_def to_int4_def Let_def split: sum.splits)
qed

lemma full_row_accepted: "submissions_error full_row = None"
  by (simp add: full_row_def submissions_error_def enum_input_def int4_input_def in_int4_def
        int4_min_def int4_max_def check_passes_def sql_and_def sql_ge_def sql_le_def)

lemma submissions_table_replicate:
  "submissions_error r = None \<Longrightarrow> submissions_table (replicate n r)"
  using submissions_table_append [OF submissions_empty, of "replicate n r"] by simp

lemma total_stops_replicate:
  "sum_list (map (\<lambda>r. coalesce (stops r) 0) (replicate n full_row)) = int n * 200"
  by (simp add: sum_list_replicate full_row_def coalesce_def)

lemma accepted_rate:
  assumes "submissions_error r = None"
  shows "calculate_rate_per_100 (stops r) (trips r) = Inr (Some (per_person_rate r))"
proof -
  from submissions_error_NoneD [OF assms] obtain t s
    where "trips r = Some t" "stops r = Some s" "1 \<le> t" by blast
  then show ?thesis
    by (simp add: calculate_rate_per_100_def float_div_def per_person_rate_def coalesce_def)
qed

lemma collect_rates:
  "\<forall>r \<in> set tab. submissions_error r = None \<Longrightarrow>
   collect (map (\<lambda>r. calculate_rate_per_100 (stops r) (trips r)) tab) = Inr (map (\<lambda>r. Some (per_person_rate r)) tab)"
  by (induction tab) (simp_all add: accepted_rate)

lemma accepted_column:
  assumes "\<forall>r \<in> set tab. submissions_error r = None"
  shows "map trips tab = map Some (map (\<lambda>r. coalesce (trips r) 0) tab)"
    and "map stops tab = map Some (map (\<lambda>r. coalesce (stops r) 0) tab)"
proof -
  have "\<And>r. r \<in> set tab \<Longrightarrow> trips r = Some (coalesce (trips r) 0) \<and> stops r = Some (coalesce (stops r) 0)"
  proof -
    fix r assume "r \<in> set tab"
    with assms have "submissions_error r = None" by blast
    from submissions_error_NoneD [OF this] show "trips r = Some (coalesce (trips r) 0) \<and> stops r = Some (coalesce (stops r) 0)"
      by (auto simp: coalesce_def)
  qed
  then show "map trips tab = map Some (map (\<lambda>r. coalesce (trips r) 0) tab)"
    and "map stops tab = map Some (map (\<lambda>r. coalesce (stops r) 0) tab)"
    by (simp_all add: comp_def)
qed

lemma public_stats_accepted:
  assumes "\<forall>r \<in> set tab. submissions_error r = None" and "tab \<noteq> []"
  shows "public_stats tab =
     Inr \<lparr>total_submissions_view = int (length tab),
          total_trips = Some (sum_list (map (\<lambda>r. coalesce (trips r) 0) tab)),
          total_stops_view = Some (sum_list (map (\<lambda>r. coalesce (stops r) 0) tab)),
          avg_rate_per_100 = Some (sum_list (map per_person_rate tab) / of_nat (length tab))\<rparr>"
proof -
  have a: "sql_sum (map trips tab) = Some (sum_list (map (\<lambda>r. coalesce (trips r) 0) tab))"
    unfolding accepted_column(1) [OF assms(1)] sql_sum_Some using assms(2) by simp
  have b: "sql_sum (map stops tab) = Some (sum_list (map (\<lambda>r. coalesce (stops r) 0) tab))"
    unfolding accepted_column(2) [OF assms(1)] sql_sum_Some using assms(2) by simp
  have "map (\<lambda>r. Some (per_person_rate r)) tab = map Some (map per_person_rate tab)" by (simp add: comp_def)
  then have c: "sql_avg (map (\<lambda>r. Some (per_person_rate r)) tab) = Some (sum_list (map per_person_rate tab) / of_nat (length tab))"
    using sql_avg_Some [of "map per_person_rate tab"] assms(2) by (simp add: comp_def)
  show ?thesis
    unfolding public_stats_def collect_rates [OF assms(1)] by (simp add: a b c)
qed

lemma public_stats_sample:
  "public_stats sample_rows =
     Inr \<lparr>total_submissions_view = 4, total_trips = Some 90, total_stops_view = Some 6,
          avg_rate_per_100 = Some (23 / 4)\<rparr>"
proof -
  have "sample_rows \<noteq> []" by (simp add: sample_rows_def)
  from public_stats_accepted [OF sample_rows_accepted this]
  show ?thesis by (simp add: sample_rows_def per_person_rate_def coalesce_def)
qed

section \<open>The range of trips and stops\<close>

text \<open>
  Claim C1. Every row of the submissions table has \<open>1 \<le> trips \<le> 200\<close> and
  \<open>0 \<le> stops \<le> trips\<close>. A candidate with \<open>trips\<close> outside \<open>[1, 200]\<close> or \<open>stops\<close>
  outside \<open>[0, trips]\<close> is refused by \<^verbatim>\<open>INSERT\<close> and by \<^verbatim>\<open>UPDATE\<close>, is in no
  table, and the validation of the form's step that holds the two fields returns false.
\<close>

theorem submissions_range_enforced:
  fixes t s :: int
  shows "(submissions_table tab \<longrightarrow>
            (\<forall>x \<in> set tab. \<exists>a b. trips x = Some a \<and> stops x = Some b
                                  \<and> 1 \<le> a \<and> a \<le> 200 \<and> 0 \<le> b \<and> b \<le> a))
         \<and> (trips r = Some t \<and> stops r = Some s
              \<and> \<not> (1 \<le> t \<and> t \<le> 200 \<and> 0 \<le> s \<and> s \<le> t) \<longrightarrow>
                (\<exists>e. insert_submission r tab = Inl e)
              \<and> (i < length tab \<longrightarrow> (\<exists>e. update_submission i r tab = Inl e))
              \<and> (submissions_table tab \<longrightarrow> r \<notin> set tab)
              \<and> (currentStep st = 0 \<and> data st ''trips'' = VNum (of_int t)
                  \<and> data st ''stops'' = VNum (of_int s) \<longrightarrow>
                    snd (validateCurrentStep st) = False))"
proof (intro conjI impI)
  assume "submissions_table tab"
  then show "\<forall>x \<in> set tab. \<exists>a b. trips x = Some a \<and> stops x = Some b
                                  \<and> 1 \<le> a \<and> a \<le> 200 \<and> 0 \<le> b \<and> b \<le> a"
    using submissions_table_rows submissions_error_NoneD by blast
next
  assume h: "trips r = Some t \<and> stops r = Some s \<and> \<not> (1 \<le> t \<and> t \<le> 200 \<and> 0 \<le> s \<and> s \<le> t)"
  then have "submissions_error r \<noteq> None"
    using submissions_error_out_of_range by blast
  then show "\<exists>e. insert_submission r tab = Inl e"
    by (rule insert_submission_rejects)
next
  assume h: "trips r = Some t \<and> stops r = Some s \<and> \<not> (1 \<le> t \<and> t \<le> 200 \<and> 0 \<le> s \<and> s \<le> t)"
    and "i < length tab"
  from h have "submissions_error r \<noteq> None"
    using submissions_error_out_of_range by blast
  with \<open>i < length tab\<close> show "\<exists>e. update_submission i r tab = Inl e"
    by (auto simp: update_submission_def split: option.splits)
next
  assume h: "trips r = Some t \<and> stops r = Some s \<and> \<not> (1 \<le> t \<and> t \<le> 200 \<and> 0 \<le> s \<and> s \<le> t)"
    and "submissions_table tab"
  from h have "submissions_error r \<noteq> None"
    using submissions_error_out_of_range by blast
  with \<open>submissions_table tab\<close> show "r \<notin> set tab"
    by (auto dest: submissions_table_rows)
next
  assume h: "trips r = Some t \<and> stops r = Some s \<and> \<not> (1 \<le> t \<and> t \<le> 200 \<and> 0 \<le> s \<and> s \<le> t)"
    and f: "currentStep st = 0 \<and> data st ''trips'' = VNum (of_int t)
                  \<and> data st ''stops'' = VNum (of_int s)"
  from h have "\<not> (1 \<le> (of_int t :: rat) \<and> (of_int t :: rat) \<le> 200
                  \<and> 0 \<le> (of_int s :: rat) \<and> (of_int s :: rat) \<le> of_int t)"
    by simp
  with f show "snd (validateCurrentStep st) = False"
    using validateCurrentStep_rejects [of st "of_int t" "of_int s"] by blast
qed

theorem submissions_range_enforced_witness:
  "submissions_table sample_rows
   \<and> insert_submission (full_row\<lparr>trips := Some 0, stops := Some 0\<rparr>) sample_rows = Inl CheckViolation
   \<and> update_submission 0 (full_row\<lparr>trips := Some 0, stops := Some 0\<rparr>) sample_rows = Inl CheckViolation
   \<and> full_row\<lparr>trips := Some 0, stops := Some 0\<rparr> \<notin> set sample_rows
   \<and> currentStep initialFormState = 0
   \<and> data initialFormState ''trips'' = VNum 0
   \<and> data initialFormState ''stops'' = VNum 0
   \<and> snd (validateCurrentStep initialFormState) = False"
proof -
  have e: "submissions_error (full_row\<lparr>trips := Some 0, stops := Some 0\<rparr>) = Some CheckViolation"
    by (simp add: full_row_def submissions_error_def enum_input_def int4_input_def in_int4_def
        int4_min_def int4_max_def check_passes_def sql_and_def sql_ge_def sql_le_def)
  have f: "currentStep initialFormState = 0 \<and> data initialFormState ''trips'' = VNum 0
     \<and> data initialFormState ''stops'' = VNum 0"
    by (simp add: initialFormState_def)
  have l: "(0::nat) < length sample_rows" by (simp add: sample_rows_def)
  show ?thesis
    using submissions_range_enforced
            [of sample_rows "full_row\<lparr>trips := Some 0, stops := Some 0\<rparr>" 0 0 0 initialFormState]
          submissions_table_sample e f l
    by (simp add: insert_submission_def update_submission_def full_row_def)
qed

section \<open>The activation gate\<close>

text \<open>
  Claim C3, as the code has it. \<open>check_minimum_sample\<close> returns \<open>meets_minimum\<close> true
  exactly when there are at least 500 submissions and at least 100 stops in total,
  provided both totals fit the \<^verbatim>\<open>INTEGER\<close> variables that receive them; in particular
  it returns false at 499 submissions and at 99 stops.
\<close>

theorem check_minimum_sample_gate:
  assumes "in_int4 (int (length tab))"
    and "in_int4 (sum_list (map (\<lambda>r. coalesce (stops r) 0) tab))"
  shows "\<exists>res. check_minimum_sample tab = Inr res
           \<and> total_submissions res = int (length tab)
           \<and> total_stops res = sum_list (map (\<lambda>r. coalesce (stops r) 0) tab)
           \<and> meets_minimum res =
               (500 \<le> int (length tab)
                \<and> 100 \<le> sum_list (map (\<lambda>r. coalesce (stops r) 0) tab))"
  using check_minimum_sample_in_range [OF assms] by simp

theorem check_minimum_sample_gate_witness:
  "in_int4 (int (length (replicate 500 full_row)))
   \<and> in_int4 (sum_list (map (\<lambda>r. coalesce (stops r) 0) (replicate 500 full_row)))
   \<and> check_minimum_sample (replicate 500 full_row) =
        Inr \<lparr>total_submissions = 500, total_stops = 100000, meets_minimum = True\<rparr>"
proof -
  have a: "in_int4 (int (length (replicate 500 full_row)))"
    by (simp add: in_int4_def int4_min_def int4_max_def)
  have b: "in_int4 (sum_list (map (\<lambda>r. coalesce (stops r) 0) (replicate 500 full_row)))"
    unfolding total_stops_replicate by (simp add: in_int4_def int4_min_def int4_max_def)
  from check_minimum_sample_gate [OF a b] obtain res
    where "check_minimum_sample (replicate 500 full_row) = Inr res"
      and "total_submissions res = 500" and "total_stops res = 100000" and "meets_minimum res"
    unfolding total_stops_replicate by auto
  then have "check_minimum_sample (replicate 500 full_row) =
        Inr \<lparr>total_submissions = 500, total_stops = 100000, meets_minimum = True\<rparr>"
    by (cases res) simp
  with a b show ?thesis by blast
qed

text \<open>
  A table of 10737419 rows of 200 stops each passes both thresholds, and its total of
  stops, 2147483800, does not fit an \<^verbatim>\<open>INTEGER\<close>: the function raises.
\<close>

theorem check_minimum_sample_counterexample:
  "submissions_table (replicate 10737419 full_row)
   \<and> 500 \<le> int (length (replicate 10737419 full_row))
   \<and> 100 \<le> sum_list (map (\<lambda>r. coalesce (stops r) 0) (replicate 10737419 full_row))
   \<and> check_minimum_sample (replicate 10737419 full_row) = Inl NumericValueOutOfRange"
proof -
  have "\<not> in_int4 (sum_list (map (\<lambda>r. coalesce (stops r) 0) (replicate 10737419 full_row)))"
    unfolding total_stops_replicate by (simp add: in_int4_def int4_max_def)
  from check_minimum_sample_overflow [OF this]
  show ?thesis
    unfolding total_stops_replicate
    by (simp add: submissions_table_replicate [OF full_row_accepted])
qed

section \<open>The published aggregates\<close>

lemma aggregates_public_error_NoneD:
  assumes "aggregates_public_error runs c = None"
  shows "\<exists>n. n_people c = Some n \<and> 50 \<le> n"
proof -
  from assms have "n_people c \<noteq> None"
    by (simp add: aggregates_public_error_def split: if_splits)
  then obtain n where n: "n_people c = Some n" by auto
  from assms have "check_passes (sql_ge (n_people c) (Some 50))"
    by (simp add: aggregates_public_error_def split: if_splits)
  then have "50 \<le> n" unfolding n check_ge_iff .
  with n show ?thesis by blast
qed

lemma aggregates_public_error_small:
  assumes "n_people c = None \<or> (\<exists>n. n_people c = Some n \<and> n < 50)"
  shows "aggregates_public_error runs c \<noteq> None"
proof
  assume "aggregates_public_error runs c = None"
  from aggregates_public_error_NoneD [OF this] assms show False by auto
qed

lemma insert_aggregate_InrD:
  "insert_aggregate runs c tab = Inr tab' \<Longrightarrow>
     aggregates_public_error runs c = None \<and> tab' = tab @ [c]"
  by (simp add: insert_aggregate_def split: option.splits)

lemma update_aggregate_InrD:
  "update_aggregate runs i c tab = Inr tab' \<Longrightarrow>
     tab' = tab \<or> (aggregates_public_error runs c = None \<and> tab' = tab[i := c])"
  by (simp add: update_aggregate_def split: option.splits if_splits)

lemma aggregates_public_table_rows:
  assumes "aggregates_public_table tab" and "c \<in> set tab"
  shows "\<exists>n. n_people c = Some n \<and> 50 \<le> n"
  using assms
proof (induction arbitrary: c rule: aggregates_public_table.induct)
  case aggregates_empty
  then show ?case by simp
next
  case (aggregates_insert tab runs c' tab')
  from insert_aggregate_InrD [OF aggregates_insert.hyps(2)]
  have "aggregates_public_error runs c' = None" and "tab' = tab @ [c']" by simp_all
  with aggregates_insert.IH aggregates_insert.prems aggregates_public_error_NoneD
  show ?case by auto
next
  case (aggregates_update tab runs i c' tab')
  from update_aggregate_InrD [OF aggregates_update.hyps(2)]
  show ?case
  proof
    assume "tab' = tab"
    with aggregates_update show ?thesis by simp
  next
    assume h: "aggregates_public_error runs c' = None \<and> tab' = tab[i := c']"
    have "set (tab[i := c']) \<subseteq> insert c' (set tab)" by (rule set_update_subset_insert)
    with h aggregates_update.prems have "c = c' \<or> c \<in> set tab" by auto
    with h aggregates_update.IH aggregates_public_error_NoneD show ?thesis by auto
  qed
next
  case (aggregates_delete tab i)
  from aggregates_delete.prems set_delete_row [of i tab] have "c \<in> set tab" by blast
  then show ?case by (rule aggregates_delete.IH)
qed

lemma sample_cell_50_accepted: "aggregates_public_error [] (sample_cell 50) = None"
  by (simp add: sample_cell_def aggregates_public_error_def int4_input_def in_int4_def
        int4_min_def int4_max_def check_passes_def sql_ge_def)

lemma aggregates_public_table_sample: "aggregates_public_table [sample_cell 50]"
proof -
  have "insert_aggregate [] (sample_cell 50) [] = Inr [sample_cell 50]"
    by (simp add: insert_aggregate_def sample_cell_50_accepted)
  with aggregates_empty show ?thesis by (rule aggregates_insert)
qed

text \<open>
  Claim C2. Every cell of the table \<open>aggregates_public\<close>, and so every cell that a
  public reader selects from it, has \<open>n_people \<ge> 50\<close>. A cell with \<open>n_people < 50\<close> (or
  without \<open>n_people\<close>) is refused whole by \<^verbatim>\<open>INSERT\<close> and \<^verbatim>\<open>UPDATE\<close>, whatever its
  other columns hold, and is in no published table.
\<close>

theorem aggregates_public_k_anonymity:
  "(aggregates_public_table tab \<longrightarrow>
      (\<forall>x \<in> set (select_aggregates_public tab). \<exists>n. n_people x = Some n \<and> 50 \<le> n))
   \<and> (n_people c = None \<or> (\<exists>n. n_people c = Some n \<and> n < 50) \<longrightarrow>
          (\<exists>e. insert_aggregate runs c tab = Inl e)
        \<and> (i < length tab \<longrightarrow> (\<exists>e. update_aggregate runs i c tab = Inl e))
        \<and> (aggregates_public_table tab \<longrightarrow> c \<notin> set (select_aggregates_public tab)))"
proof (intro conjI impI)
  assume "aggregates_public_table tab"
  then show "\<forall>x \<in> set (select_aggregates_public tab). \<exists>n. n_people x = Some n \<and> 50 \<le> n"
    by (simp add: select_aggregates_public_def aggregates_public_table_rows)
next
  assume "n_people c = None \<or> (\<exists>n. n_people c = Some n \<and> n < 50)"
  then have "aggregates_public_error runs c \<noteq> None"
    by (rule aggregates_public_error_small)
  then show "\<exists>e. insert_aggregate runs c tab = Inl e"
    by (auto simp: insert_aggregate_def split: option.splits)
next
  assume "n_people c = None \<or> (\<exists>n. n_people c = Some n \<and> n < 50)" and "i < length tab"
  from this(1) have "aggregates_public_error runs c \<noteq> None"
    by (rule aggregates_public_error_small)
  with \<open>i < length tab\<close> show "\<exists>e. update_aggregate runs i c tab = Inl e"
    by (auto simp: update_aggregate_def split: option.splits)
next
  assume h: "n_people c = None \<or> (\<exists>n. n_people c = Some n \<and> n < 50)"
    and t: "aggregates_public_table tab"
  show "c \<notin> set (select_aggregates_public tab)"
  proof
    assume "c \<in> set (select_aggregates_public tab)"
    then have "c \<in> set tab" by (simp add: select_aggregates_public_def)
    from aggregates_public_table_rows [OF t this] h show False by auto
  qed
qed

theorem aggregates_public_k_anonymity_witness:
  "aggregates_public_table [sample_cell 50]
   \<and> n_people (sample_cell 50) = Some 50
   \<and> n_people (sample_cell 49) = Some 49
   \<and> insert_aggregate [] (sample_cell 49) [sample_cell 50] = Inl CheckViolation
   \<and> update_aggregate [] 0 (sample_cell 49) [sample_cell 50] = Inl CheckViolation
   \<and> sample_cell 49 \<notin> set (select_aggregates_public [sample_cell 50])"
proof -
  have e: "aggregates_public_error [] (sample_cell 49) = Some CheckViolation"
    by (simp add: sample_cell_def aggregates_public_error_def int4_input_def in_int4_def
        int4_min_def int4_max_def check_passes_def sql_ge_def)
  have n: "n_people (sample_cell 49) = Some 49" "n_people (sample_cell 50) = Some 50"
    by (simp_all add: sample_cell_def)
  show ?thesis
    using aggregates_public_k_anonymity [of "[sample_cell 50]" "sample_cell 49" "[]" 0]
          aggregates_public_table_sample e n
    by (simp add: insert_aggregate_def update_aggregate_def)
qed

section \<open>The aggregate rate\<close>

text \<open>
  Claim C5, as the code has it. Over a non-empty table the view \<open>public_stats\<close> gives as
  \<open>avg_rate_per_100\<close> the mean of the rates of the single submissions,
  \<open>stops\<^sub>i / trips\<^sub>i \<times> 100\<close>: the average of the per-person rates, which in general is
  not the additive rate.
\<close>

theorem public_stats_avg_rate:
  assumes "submissions_table tab" and "tab \<noteq> []"
  shows "\<exists>row. public_stats tab = Inr row
           \<and> avg_rate_per_100 row =
               Some (sum_list (map per_person_rate tab) / of_nat (length tab))"
proof -
  from assms(1) have ok: "\<forall>r \<in> set tab. submissions_error r = None"
    using submissions_table_rows by blast
  from public_stats_accepted [OF ok assms(2)] show ?thesis by simp
qed

text \<open>
  Two rows, \<open>200\<close> stops in \<open>200\<close> trips and no stop in \<open>100\<close> trips: the view gives the
  mean \<open>(100 + 0) / 2 = 50\<close>, and the additive rate is \<open>200 / 300 \<times> 100\<close>.
\<close>

theorem public_stats_avg_rate_witness:
  "submissions_table [full_row, full_row\<lparr>trips := Some 100, stops := Some 0\<rparr>]
   \<and> [full_row, full_row\<lparr>trips := Some 100, stops := Some 0\<rparr>] \<noteq> []
   \<and> map_sum (\<lambda>e. e) avg_rate_per_100
         (public_stats [full_row, full_row\<lparr>trips := Some 100, stops := Some 0\<rparr>])
       = Inr (Some 50)
   \<and> (50 :: rat) \<noteq> of_int 200 / of_int 300 * 100"
proof -
  have "submissions_error (full_row\<lparr>trips := Some 100, stops := Some 0\<rparr>) = None"
    by (simp add: full_row_def submissions_error_def enum_input_def int4_input_def in_int4_def
        int4_min_def int4_max_def check_passes_def sql_and_def sql_ge_def sql_le_def)
  with full_row_accepted
  have "\<forall>r \<in> set [full_row, full_row\<lparr>trips := Some 100, stops := Some 0\<rparr>].
          submissions_error r = None"
    by simp
  from submissions_table_append [OF submissions_empty this]
  have t: "submissions_table [full_row, full_row\<lparr>trips := Some 100, stops := Some 0\<rparr>]"
    by simp
  have n: "[full_row, full_row\<lparr>trips := Some 100, stops := Some 0\<rparr>] \<noteq> []" by simp
  from public_stats_avg_rate [OF t n] obtain row
    where "public_stats [full_row, full_row\<lparr>trips := Some 100, stops := Some 0\<rparr>] = Inr row"
      and "avg_rate_per_100 row = Some 50"
    by (auto simp: full_row_def coalesce_def per_person_rate_def)
  then have "map_sum (\<lambda>e. e) avg_rate_per_100
         (public_stats [full_row, full_row\<lparr>trips := Some 100, stops := Some 0\<rparr>])
       = Inr (Some 50)"
    by simp
  with t n show ?thesis by simp
qed

text \<open>
  On the four sample rows the view's \<open>avg_rate_per_100\<close> is \<open>(5 + 8 + 0 + 10) / 4 = 5.75\<close>,
  not the additive \<open>6 / 90 \<times> 100\<close>.
\<close>

theorem public_stats_avg_rate_counterexample:
  "submissions_table sample_rows
   \<and> public_stats sample_rows =
        Inr \<lparr>total_submissions_view = 4, total_trips = Some 90, total_stops_view = Some 6,
             avg_rate_per_100 = Some (23 / 4)\<rparr>
   \<and> (23 / 4 :: rat) \<noteq> of_int 6 / of_int 90 * 100"
  using submissions_table_sample public_stats_sample by simp

text \<open>
  Claim C6. The four sample rows are accepted; summed without any filter they give
  \<open>n_trips = 90\<close> and \<open>n_stops = 6\<close>, both of which fit an \<^verbatim>\<open>INTEGER\<close>, and the rate that
  \<open>calculate_rate_per_100\<close> returns for them is \<open>6.67\<close> at two decimals.
\<close>

theorem sample_data_aggregate:
  "insert_sample_data [] = Inr sample_rows
   \<and> sql_sum (map trips sample_rows) = Some 90
   \<and> sql_sum (map stops sample_rows) = Some 6
   \<and> to_int4 90 = Inr 90
   \<and> to_int4 6 = Inr 6
   \<and> (\<exists>r. calculate_rate_per_100 (Some 6) (Some 90) = Inr (Some r)
          \<and> 1333 / 200 \<le> r \<and> r < 1335 / 200
          \<and> of_int (round (r * 100)) / 100 = (667 / 100 :: rat))"
proof -
  have a: "sql_sum (map trips sample_rows) = Some 90"
    by (simp add: sample_rows_def sql_sum_def List.map_filter_simps)
  have b: "sql_sum (map stops sample_rows) = Some 6"
    by (simp add: sample_rows_def sql_sum_def List.map_filter_simps)
  have c: "to_int4 90 = Inr 90" "to_int4 6 = Inr 6"
    by (simp_all add: to_int4_def in_int4_def int4_min_def int4_max_def)
  have d: "calculate_rate_per_100 (Some 6) (Some 90) = Inr (Some (20 / 3))"
    by (simp add: calculate_rate_per_100_def float_div_def)
  have "\<lfloor>4003 / 6 :: rat\<rfloor> = 667"
    using floor_divide_of_int_eq [of 4003 6, where ?'a = rat] by simp
  then have e: "of_int (round (20 / 3 * 100 :: rat)) / 100 = (667 / 100 :: rat)"
    by (simp add: round_def)
  have f: "1333 / 200 \<le> (20 / 3 :: rat)" "(20 / 3 :: rat) < 1335 / 200"
    by simp_all
  from d e f have "calculate_rate_per_100 (Some 6) (Some 90) = Inr (Some (20 / 3))
          \<and> 1333 / 200 \<le> (20 / 3 :: rat) \<and> (20 / 3 :: rat) < 1335 / 200
          \<and> of_int (round (20 / 3 * 100 :: rat)) / 100 = (667 / 100 :: rat)"
    by blast
  then have "\<exists>r. calculate_rate_per_100 (Some 6) (Some 90) = Inr (Some r)
          \<and> 1333 / 200 \<le> r \<and> r < 1335 / 200
          \<and> of_int (round (r * 100)) / 100 = (667 / 100 :: rat)"
    by (rule exI [of _ "20 / 3"])
  with a b c insert_sample_data_empty show ?thesis by blast
qed

section \<open>The sanitised payload\<close>

text \<open>Ground terms of the number functions are evaluated by these equations.\<close>

lemma floor_numeral_divide:
  "\<lfloor>numeral a / numeral b :: rat\<rfloor> = numeral a div numeral b"
  using floor_divide_of_int_eq [of "numeral a" "numeral b", where ?'a = rat] by simp

lemmas double_eval = to_double_def signed_double_def nearest_double_def round_to_unit_def
  binary_exponent_def exponent_below_one_def bit_length.simps ties_to_even_def ties_pick_def
  pow2_def floor_numeral_divide

lemmas text_eval = number_text_def shortest_def digits_at_def digits_scaled_def
  digits_between_def digits_choose_def decimal_exponent_def pow10_def decimal.simps

lemma to_double_overflow: "pow2 1024 \<le> x \<Longrightarrow> to_double x = PosInfinity"
proof -
  assume h: "pow2 1024 \<le> x"
  have "0 < pow2 1024" by (simp add: pow2_def)
  with h have "0 < x" by simp
  with h show ?thesis by (simp add: to_double_def)
qed

lemma to_double_20: "to_double 20 = Finite 20"
  by (simp add: double_eval)

lemma to_double_1: "to_double 1 = Finite 1"
  by (simp add: double_eval)

lemma number_text_20: "number_text 20 = 20"
  by (simp add: double_eval text_eval)

lemma number_text_1: "number_text 1 = 1"
  by (simp add: double_eval text_eval)

lemma to_double_2_53_1: "to_double 9007199254740993 = Finite 9007199254740992"
  by (simp add: double_eval)

lemma number_text_2_53: "number_text 9007199254740992 = 9007199254740992"
  by (simp add: double_eval text_eval)

lemma request_json_JsString: "request_json v = JsString s \<longleftrightarrow> v = JString s"
  by (cases v) auto

lemma JSON_stringify_JString: "JSON_stringify w = JString s \<longleftrightarrow> w = JsString s"
  by (cases w) (auto split: js_number.splits)

lemma sanitize_value_not_PreferNot: "sanitize_value w \<noteq> JsString ''PreferNot''"
  by (simp add: sanitize_value_def)

lemma roundtrip_number_free: "number_free v \<Longrightarrow> JSON_stringify (request_json v) = v"
proof (induction v)
  case (JArray xs)
  then have "map (\<lambda>x. JSON_stringify (request_json x)) xs = xs"
    by (intro map_idI) simp
  then show ?case by (simp add: comp_def)
next
  case (JObject kvs)
  have "map (\<lambda>kv. map_prod (\<lambda>key. key) JSON_stringify (map_prod (\<lambda>key. key) request_json kv)) kvs = kvs"
  proof (intro map_idI)
    fix kv assume kv: "kv \<in> set kvs"
    obtain k x where e: "kv = (k, x)" by (cases kv)
    with kv JObject.prems have "number_free x" by auto
    moreover from kv e have "x \<in> Basic_BNFs.snds kv" by simp
    ultimately have "JSON_stringify (request_json x) = x" using JObject.IH kv by blast
    with e show "map_prod (\<lambda>key. key) JSON_stringify (map_prod (\<lambda>key. key) request_json kv) = kv"
      by simp
  qed
  then show ?case by (simp add: comp_def)
qed simp_all

lemma forwarded_payload_entries:
  "forwarded_payload payload =
     JObject (map (\<lambda>kv. (fst kv, JSON_stringify (sanitize_value (snd kv))))
                  (own_entries (request_json payload)))"
  by (simp add: forwarded_payload_def sanitizedBody_def case_prod_unfold map_prod_def comp_def)

lemma forwarded_payload_object:
  "forwarded_payload (JObject kvs) =
     JObject (map (\<lambda>kv. (fst kv, if snd kv = JString ''PreferNot'' then JNull
                                   else JSON_stringify (request_json (snd kv)))) kvs)"
  unfolding forwarded_payload_entries
  by (simp add: own_entries_def sanitize_value_def request_json_JsString
        case_prod_unfold map_prod_def comp_def)


text \<open>
  Claim C9, as the code has it. For every JSON body the route forwards the object of
  the body's top-level properties, with the same keys in the same order. A top-level
  value that is exactly the string \<open>PreferNot\<close> is replaced by \<open>null\<close>; every other value
  is forwarded as \<^verbatim>\<open>JSON.stringify\<close> writes what \<^verbatim>\<open>request.json()\<close> read: unchanged when
  no number occurs in it, and a number as the text of the double nearest to it, or as
  \<open>null\<close> when that is an infinity. So no top-level property of a forwarded payload has
  the value \<open>PreferNot\<close>; in particular \<open>height_bracket\<close> has not, a label that the
  type \<open>height_bracket_enum\<close> of the database does not have.
\<close>

theorem sanitize_top_level:
  "forwarded_payload (JObject kvs) =
     JObject (map (\<lambda>kv. (fst kv, if snd kv = JString ''PreferNot'' then JNull
                                   else JSON_stringify (request_json (snd kv)))) kvs)
   \<and> (number_free v \<longrightarrow> JSON_stringify (request_json v) = v)
   \<and> JSON_stringify (request_json (JNumber x)) =
       (case to_double x of
          Finite d \<Rightarrow> JNumber (number_text d)
        | PosInfinity \<Rightarrow> JNull
        | NegInfinity \<Rightarrow> JNull)
   \<and> (\<exists>es. forwarded_payload payload = JObject es
            \<and> map fst es = map fst (own_entries (request_json payload))
            \<and> (\<forall>kv \<in> set es. snd kv \<noteq> JString ''PreferNot'')
            \<and> map_of es ''height_bracket'' \<noteq> Some (JString ''PreferNot''))
   \<and> \<not> enum_input height_bracket_enum (Some ''PreferNot'')"
proof (intro conjI impI)
  show "forwarded_payload (JObject kvs) =
     JObject (map (\<lambda>kv. (fst kv, if snd kv = JString ''PreferNot'' then JNull
                                   else JSON_stringify (request_json (snd kv)))) kvs)"
    by (rule forwarded_payload_object)
  show "JSON_stringify (request_json (JNumber x)) =
       (case to_double x of
          Finite d \<Rightarrow> JNumber (number_text d)
        | PosInfinity \<Rightarrow> JNull
        | NegInfinity \<Rightarrow> JNull)"
    by simp
  show "\<not> enum_input height_bracket_enum (Some ''PreferNot'')"
    by (simp add: enum_input_def height_bracket_enum_def)
  show "\<exists>es. forwarded_payload payload = JObject es
            \<and> map fst es = map fst (own_entries (request_json payload))
            \<and> (\<forall>kv \<in> set es. snd kv \<noteq> JString ''PreferNot'')
            \<and> map_of es ''height_bracket'' \<noteq> Some (JString ''PreferNot'')"
  proof -
    define es where "es = map (\<lambda>kv. (fst kv, JSON_stringify (sanitize_value (snd kv))))
                  (own_entries (request_json payload))"
    have a: "forwarded_payload payload = JObject es"
      unfolding es_def by (rule forwarded_payload_entries)
    have b: "map fst es = map fst (own_entries (request_json payload))"
      unfolding es_def by (simp add: comp_def)
    have c: "\<forall>kv \<in> set es. snd kv \<noteq> JString ''PreferNot''"
      unfolding es_def
      by (auto simp: JSON_stringify_JString sanitize_value_not_PreferNot)
    have d: "map_of es ''height_bracket'' \<noteq> Some (JString ''PreferNot'')"
    proof
      assume "map_of es ''height_bracket'' = Some (JString ''PreferNot'')"
      then have "(''height_bracket'', JString ''PreferNot'') \<in> set es" by (rule map_of_SomeD)
      with c show False by auto
    qed
    from a b c d show ?thesis by blast
  qed
next
  assume "number_free v"
  then show "JSON_stringify (request_json v) = v" by (rule roundtrip_number_free)
qed

theorem sanitize_top_level_witness:
  "forwarded_payload form_payload =
     JObject [(''trips'', JNumber 20), (''stops'', JNumber 1),
              (''gender'', JString ''Male''), (''height_bracket'', JNull)]
   \<and> number_free (JString ''Male'')
   \<and> JSON_stringify (request_json (JString ''Male'')) = JString ''Male''
   \<and> JSON_stringify (request_json (JNumber 20)) = JNumber 20
   \<and> (''height_bracket'', JNull) \<in> set [(''trips'', JNumber 20), (''stops'', JNumber 1),
              (''gender'', JString ''Male''), (''height_bracket'', JNull)]"
proof -
  note t = sanitize_top_level
             [of "[(''trips'', JNumber 20), (''stops'', JNumber 1),
                   (''gender'', JString ''Male''), (''height_bracket'', JString ''PreferNot'')]"
                 "JString ''Male''" 20 form_payload]
  have n: "number_free (JString ''Male'')" by simp
  from t have "forwarded_payload form_payload =
     JObject (map (\<lambda>kv. (fst kv, if snd kv = JString ''PreferNot'' then JNull
                                   else JSON_stringify (request_json (snd kv))))
      [(''trips'', JNumber 20), (''stops'', JNumber 1),
       (''gender'', JString ''Male''), (''height_bracket'', JString ''PreferNot'')])"
    unfolding form_payload_def by blast
  then have a: "forwarded_payload form_payload =
     JObject [(''trips'', JNumber 20), (''stops'', JNumber 1),
              (''gender'', JString ''Male''), (''height_bracket'', JNull)]"
    by (simp add: to_double_20 to_double_1 number_text_20 number_text_1)
  from t n have b: "JSON_stringify (request_json (JString ''Male'')) = JString ''Male''"
    by blast
  from t have c: "JSON_stringify (request_json (JNumber 20)) = JNumber 20"
    by (simp add: to_double_20 number_text_20)
  from a b c n show ?thesis by simp
qed

text \<open>
  The replacement is not applied below the top level: a \<open>PreferNot\<close> inside an array is
  forwarded as it came. And not every other value is forwarded unchanged:
  \<open>9007199254740993\<close> is forwarded as \<open>9007199254740992\<close>, and \<open>10\<^sup>4\<^sup>0\<^sup>0\<close> as \<open>null\<close>.
\<close>

theorem sanitize_top_level_counterexample:
  "occurs (JString ''PreferNot'')
     (forwarded_payload (JObject [(''height_bracket'', JArray [JString ''PreferNot''])]))
   \<and> forwarded_payload (JObject [(''trips'', JNumber 9007199254740993)]) =
       JObject [(''trips'', JNumber 9007199254740992)]
   \<and> forwarded_payload (JObject [(''trips'', JNumber (10 ^ 400))]) =
       JObject [(''trips'', JNull)]"
  by (simp add: forwarded_payload_object to_double_2_53_1 number_text_2_53
        to_double_overflow pow2_def)


section \<open>Publishing a run\<close>

lemma filter_key_le_1:
  "distinct (map f xs) \<Longrightarrow> length (filter (\<lambda>x. f x = k) xs) \<le> 1"
proof (induction xs)
  case Nil
  then show ?case by simp
next
  case (Cons x xs)
  show ?case
  proof (cases "f x = k")
    case True
    from Cons.prems have "f x \<notin> f ` set xs" by simp
    with True have "\<forall>y \<in> set xs. f y \<noteq> k" by blast
    then have "filter (\<lambda>x. f x = k) xs = []" by (simp add: filter_empty_conv)
    with True show ?thesis by simp
  next
    case False
    with Cons show ?thesis by simp
  qed
qed

lemma create_run_InrD:
  assumes "create_run r reg = Inr reg'"
  shows "run_store reg' = run_store reg @ [r\<lparr>public_snapshot := Some False\<rparr>]"
    and "run_id r \<notin> set (map run_id (run_store reg))"
    and "current_run reg' = current_run reg"
  using assms
  by (auto simp: create_run_def insert_model_run_def model_runs_error_def
           split: sum.splits option.splits if_splits)

lemma publish_InrD:
  assumes "publish rid reg = Inr reg'"
  shows "run_store reg' =
           map (\<lambda>r. if run_id r = rid then r\<lparr>public_snapshot := Some True\<rparr> else r) (run_store reg)"
    and "current_run reg' = Some rid"
    and "rid \<in> set (map run_id (run_store reg))"
  using assms by (auto simp: publish_def split: if_splits)

lemma publish_run_ids:
  assumes "publish rid reg = Inr reg'"
  shows "map run_id (run_store reg') = map run_id (run_store reg)"
  unfolding publish_InrD(1) [OF assms] by (induction "run_store reg") auto

lemma registry_state_distinct:
  "registry_state reg \<Longrightarrow> distinct (map run_id (run_store reg))"
proof (induction rule: registry_state.induct)
  case registry_empty
  then show ?case by (simp add: empty_registry_def)
next
  case (registry_create reg r reg')
  from create_run_InrD(1,2) [OF registry_create.hyps(2)] registry_create.IH
  show ?case by simp
next
  case (registry_publish reg rid reg')
  from publish_run_ids [OF registry_publish.hyps(2)] registry_publish.IH
  show ?case by simp
qed

lemma at_most_one_current:
  assumes "registry_state reg"
  shows "length (filter (is_current reg) (run_store reg)) \<le> 1"
proof (cases "current_run reg")
  case None
  then show ?thesis by (simp add: is_current_def)
next
  case (Some k)
  have "filter (is_current reg) (run_store reg) = filter (\<lambda>r. run_id r = k) (run_store reg)"
    by (rule filter_cong) (auto simp: is_current_def Some)
  with filter_key_le_1 [OF registry_state_distinct [OF assms], of k] show ?thesis by simp
qed

lemma registry_state_two_runs: "registry_state two_runs"
proof -
  have a: "create_run (sample_run 1) empty_registry = Inr \<lparr>run_store = [sample_run 1], current_run = None\<rparr>"
    by (simp add: create_run_def insert_model_run_def model_runs_error_def empty_registry_def
          sample_run_def enum_input_def model_type_enum_def int4_input_def in_int4_def
          int4_min_def int4_max_def)
  have b: "create_run (sample_run 2) \<lparr>run_store = [sample_run 1], current_run = None\<rparr> = Inr two_runs"
    by (simp add: create_run_def insert_model_run_def model_runs_error_def two_runs_def
          sample_run_def enum_input_def model_type_enum_def int4_input_def in_int4_def
          int4_min_def int4_max_def)
  from registry_create [OF registry_create [OF registry_empty a] b] show ?thesis .
qed

text \<open>
  Claim C7. In every registry reached by creating and publishing runs at most one run
  is the current published one; \<open>publish\<close> moves the pointer to the run it names and
  leaves every other run as it was, in all its columns. Of the published run it changes
  the flag only.
\<close>

theorem publish_moves_pointer_only:
  "(registry_state reg \<longrightarrow> length (filter (is_current reg) (run_store reg)) \<le> 1)
   \<and> (publish rid reg = Inr reg' \<longrightarrow>
         current_run reg' = Some rid
       \<and> length (run_store reg') = length (run_store reg)
       \<and> (\<forall>n < length (run_store reg).
             (run_id (run_store reg ! n) \<noteq> rid \<longrightarrow> run_store reg' ! n = run_store reg ! n)
           \<and> (run_id (run_store reg ! n) = rid \<longrightarrow>
                run_store reg' ! n = (run_store reg ! n)\<lparr>public_snapshot := Some True\<rparr>)))"
proof (intro conjI impI allI)
  assume "registry_state reg"
  then show "length (filter (is_current reg) (run_store reg)) \<le> 1" by (rule at_most_one_current)
next
  assume p: "publish rid reg = Inr reg'"
  show "current_run reg' = Some rid" by (rule publish_InrD(2) [OF p])
  show "length (run_store reg') = length (run_store reg)"
    unfolding publish_InrD(1) [OF p] by simp
next
  fix n
  assume p: "publish rid reg = Inr reg'" and n: "n < length (run_store reg)"
    and "run_id (run_store reg ! n) \<noteq> rid"
  then show "run_store reg' ! n = run_store reg ! n"
    unfolding publish_InrD(1) [OF p] by simp
next
  fix n
  assume p: "publish rid reg = Inr reg'" and n: "n < length (run_store reg)"
    and "run_id (run_store reg ! n) = rid"
  then show "run_store reg' ! n = (run_store reg ! n)\<lparr>public_snapshot := Some True\<rparr>"
    unfolding publish_InrD(1) [OF p] by simp
qed

theorem publish_moves_pointer_only_witness:
  "registry_state two_runs
   \<and> publish 2 two_runs =
        Inr \<lparr>run_store = [sample_run 1, (sample_run 2)\<lparr>public_snapshot := Some True\<rparr>],
             current_run = Some 2\<rparr>
   \<and> length (filter (is_current two_runs) (run_store two_runs)) \<le> 1
   \<and> (0::nat) < length (run_store two_runs)
   \<and> run_id (run_store two_runs ! 0) \<noteq> 2
   \<and> (1::nat) < length (run_store two_runs)
   \<and> run_id (run_store two_runs ! 1) = 2"
proof -
  have p: "publish 2 two_runs =
        Inr \<lparr>run_store = [sample_run 1, (sample_run 2)\<lparr>public_snapshot := Some True\<rparr>],
             current_run = Some 2\<rparr>"
    by (simp add: publish_def two_runs_def sample_run_def)
  from publish_moves_pointer_only
         [of two_runs 2 "\<lparr>run_store = [sample_run 1, (sample_run 2)\<lparr>public_snapshot := Some True\<rparr>],
             current_run = Some 2\<rparr>"] registry_state_two_runs
  have "length (filter (is_current two_runs) (run_store two_runs)) \<le> 1" by blast
  with p registry_state_two_runs show ?thesis
    by (simp add: two_runs_def sample_run_def)
qed

section \<open>The daily token\<close>

text \<open>
  The token is a function of the user agent and the day, and the hashed texts of one
  user agent on two different days differ.
\<close>

lemma digit_value_digit_char: "d < 10 \<Longrightarrow> digit_value (digit_char d) = d"
  by (simp add: digit_value_def digit_char_def)

lemma decimal_value_snoc: "decimal_value (s @ [c]) = 10 * decimal_value s + digit_value c"
  by (simp add: decimal_value_def)

lemma decimal_small: "n < 10 \<Longrightarrow> decimal n = [digit_char n]"
  by (subst decimal.simps) simp

lemma decimal_large: "\<not> n < 10 \<Longrightarrow> decimal n = decimal (n div 10) @ [digit_char (n mod 10)]"
  by (subst decimal.simps) simp

lemma decimal_value_decimal: "decimal_value (decimal n) = n"
proof (induction n rule: decimal.induct)
  case (1 n)
  show ?case
  proof (cases "n < 10")
    case True
    then show ?thesis by (simp add: decimal_small decimal_value_def digit_value_digit_char)
  next
    case False
    with 1 show ?thesis
      by (simp add: decimal_large decimal_value_snoc digit_value_digit_char)
  qed
qed

lemma foldl_zeros:
  "foldl (\<lambda>acc c. 10 * acc + digit_value c) 0 (replicate k (CHR ''0'')) = 0"
  by (induction k) (simp_all add: digit_value_def)

lemma decimal_value_zeros: "decimal_value (replicate k (CHR ''0'') @ s) = decimal_value s"
  by (simp add: decimal_value_def foldl_zeros)

lemma decimal_value_pad: "decimal_value (pad w n) = n"
  by (simp add: pad_def decimal_value_zeros decimal_value_decimal)

lemma pad_inj: "pad w a = pad w b \<Longrightarrow> a = b"
  by (metis decimal_value_pad)

lemma length_decimal_2: "n < 100 \<Longrightarrow> length (decimal n) \<le> 2"
proof -
  assume n: "n < 100"
  show ?thesis
  proof (cases "n < 10")
    case True
    then show ?thesis by (simp add: decimal_small)
  next
    case False
    with n have "n div 10 < 10" by simp
    with False show ?thesis by (simp add: decimal_large decimal_small)
  qed
qed

lemma length_pad_2: "n < 100 \<Longrightarrow> length (pad 2 n) = 2"
  using length_decimal_2 [of n] by (simp add: pad_def)

lemma date_text_inj:
  assumes "valid_date a" and "valid_date b" and "date_text a = date_text b"
  shows "a = b"
proof -
  obtain y m d where a: "a = Date y m d" by (cases a)
  obtain y' m' d' where b: "b = Date y' m' d'" by (cases b)
  from assms(1,2) have l: "length (pad 2 m) = 2" "length (pad 2 d) = 2"
    "length (pad 2 m') = 2" "length (pad 2 d') = 2"
    unfolding a b by (simp_all add: length_pad_2)
  from assms(3) have e: "pad 4 y @ (''-'' @ pad 2 m @ ''-'' @ pad 2 d)
                       = pad 4 y' @ (''-'' @ pad 2 m' @ ''-'' @ pad 2 d')"
    unfolding a b by simp
  have len: "length (''-'' @ pad 2 m @ ''-'' @ pad 2 d) = length (''-'' @ pad 2 m' @ ''-'' @ pad 2 d')"
    using l by simp
  from append_eq_append_conv [OF disjI2 [OF len]] e
  have y: "pad 4 y = pad 4 y'"
    and r: "''-'' @ pad 2 m @ ''-'' @ pad 2 d = ''-'' @ pad 2 m' @ ''-'' @ pad 2 d'"
    by blast+
  from r have "pad 2 m @ (''-'' @ pad 2 d) = pad 2 m' @ (''-'' @ pad 2 d')" by simp
  with l have "pad 2 m = pad 2 m'" and "pad 2 d = pad 2 d'" by simp_all
  with y show ?thesis unfolding a b by (simp add: pad_inj)
qed

lemma prehash_differs_across_days:
  assumes "valid_date a" and "valid_date b" and "a \<noteq> b"
  shows "prehash ua a \<noteq> prehash ua b"
  using assms date_text_inj by (auto simp: prehash_def)

lemma hash_user_agent_same_day:
  "ua = ua' \<Longrightarrow> date_text a = date_text b \<Longrightarrow>
     hash_user_agent sha256 a ua = hash_user_agent sha256 b ua'"
  by (simp add: hash_user_agent_def prehash_def split: option.splits)

lemma length_encode_hex: "length (encode_hex bs) = 2 * length bs"
  by (induction bs) (simp_all add: encode_hex_def)

lemma hash_user_agent_length:
  "hash_user_agent sha256 today (Some ua) = Some tok \<Longrightarrow>
     length tok = 2 * length (sha256 (prehash ua today))"
  by (auto simp: hash_user_agent_def length_encode_hex)


end
